theory Spec2Isabelle
  imports Complex_Main "HOL-Library.Log_Nat"
begin

section \<open>The C++ type \<open>double\<close>: IEEE 754 binary64\<close>

text \<open>
  Every number of the program is a C++ \<open>double\<close>. A double is a NaN, a signed infinity,
  or a finite number \<open>(-1)^s * m * 2^e\<close> with a 53-bit significand \<open>m\<close> and
  \<open>-1074 \<le> e \<le> 971\<close>; both zeros exist. The payload of a NaN is not modelled:
  there is one NaN. Comparison and arithmetic follow IEEE 754 with the default
  rounding (to nearest, ties to even), computed on integers: every \<open>*\<close> and \<open>+\<close> of
  the source is rounded to binary64 on its own, as on x86-64 and AArch64.
\<close>

datatype double = Finite bool nat int | Infinity bool | NaN

text \<open>The canonical representation: normal numbers have \<open>2^52 \<le> m\<close>, the subnormal
  ones and the zeros have the least exponent.\<close>

fun is_double :: "double \<Rightarrow> bool" where
  "is_double (Finite s m e) =
     (m < 2 ^ 53 \<and> - 1074 \<le> e \<and> e \<le> 971 \<and> (e = - 1074 \<or> 2 ^ 52 \<le> m))"
| "is_double (Infinity s) = True"
| "is_double NaN = True"

fun is_finite :: "double \<Rightarrow> bool" where
  "is_finite (Finite s m e) = True"
| "is_finite (Infinity s) = False"
| "is_finite NaN = False"

text \<open>The real number a finite double stands for (0 for the others, where it is not used).\<close>

fun valof :: "double \<Rightarrow> real" where
  "valof (Finite s m e) = (if s then - 1 else 1) * real m * 2 powi e"
| "valof (Infinity s) = 0"
| "valof NaN = 0"

text \<open>The signed significand of a finite double, scaled to the exponent \<open>k\<close>.\<close>

definition scaled :: "bool \<Rightarrow> nat \<Rightarrow> int \<Rightarrow> int \<Rightarrow> int" where
  "scaled s m e k = (if s then - 1 else 1) * int m * 2 ^ nat (e - k)"

text \<open>\<open>x <= y\<close> and \<open>x < y\<close>: false as soon as one side is a NaN.\<close>

fun fle :: "double \<Rightarrow> double \<Rightarrow> bool" where
  "fle NaN y = False"
| "fle x NaN = False"
| "fle (Infinity s) (Infinity t) = (s \<or> \<not> t)"
| "fle (Infinity s) (Finite t n f) = s"
| "fle (Finite s m e) (Infinity t) = (\<not> t)"
| "fle (Finite s m e) (Finite t n f) = (scaled s m e (min e f) \<le> scaled t n f (min e f))"

fun flt :: "double \<Rightarrow> double \<Rightarrow> bool" where
  "flt NaN y = False"
| "flt x NaN = False"
| "flt (Infinity s) (Infinity t) = (s \<and> \<not> t)"
| "flt (Infinity s) (Finite t n f) = s"
| "flt (Finite s m e) (Infinity t) = (\<not> t)"
| "flt (Finite s m e) (Finite t n f) = (scaled s m e (min e f) < scaled t n f (min e f))"

definition fgt :: "double \<Rightarrow> double \<Rightarrow> bool" where
  "fgt x y = flt y x"

text \<open>Rounding \<open>M / 2^sh\<close> to the nearest natural number, a tie to the even one.\<close>

definition round_shift :: "nat \<Rightarrow> nat \<Rightarrow> nat" where
  "round_shift M sh =
     (let q = M div 2 ^ sh; r = M mod 2 ^ sh; h = 2 ^ (sh - 1)
      in if sh = 0 then M else if h < r \<or> (r = h \<and> odd q) then q + 1 else q)"

text \<open>
  \<open>fround s M E\<close> is the double nearest to \<open>(-1)^s * M * 2^E\<close>: the significand keeps
  53 bits, fewer in the subnormal range, and a result beyond the largest finite double
  overflows to the infinity of that sign.
\<close>

definition fround :: "bool \<Rightarrow> nat \<Rightarrow> int \<Rightarrow> double" where
  "fround s M E =
     (if M = 0 then Finite s 0 (- 1074)
      else
        let sh = max (int (floorlog 2 M) - 53) (- 1074 - E)
        in if sh \<le> 0
           then (if 971 < E + sh then Infinity s else Finite s (M * 2 ^ nat (- sh)) (E + sh))
           else
             let m = round_shift M (nat sh);
                 m' = (if m = 2 ^ 53 then 2 ^ 52 else m);
                 e' = (if m = 2 ^ 53 then E + sh + 1 else E + sh)
             in if 971 < e' then Infinity s else Finite s m' e')"

text \<open>\<open>x * y\<close> on doubles.\<close>

fun fmul :: "double \<Rightarrow> double \<Rightarrow> double" where
  "fmul NaN y = NaN"
| "fmul x NaN = NaN"
| "fmul (Infinity s) (Infinity t) = Infinity (s \<noteq> t)"
| "fmul (Infinity s) (Finite t n f) = (if n = 0 then NaN else Infinity (s \<noteq> t))"
| "fmul (Finite s m e) (Infinity t) = (if m = 0 then NaN else Infinity (s \<noteq> t))"
| "fmul (Finite s m e) (Finite t n f) = fround (s \<noteq> t) (m * n) (e + f)"

text \<open>\<open>x + y\<close> on doubles. An exact sum of zero is \<open>+0\<close> unless both operands are
  negative.\<close>

fun fadd :: "double \<Rightarrow> double \<Rightarrow> double" where
  "fadd NaN y = NaN"
| "fadd x NaN = NaN"
| "fadd (Infinity s) (Infinity t) = (if s = t then Infinity s else NaN)"
| "fadd (Infinity s) (Finite t n f) = Infinity s"
| "fadd (Finite s m e) (Infinity t) = Infinity t"
| "fadd (Finite s m e) (Finite t n f) =
     (let k = min e f; z = scaled s m e k + scaled t n f k
      in if z = 0 then Finite (s \<and> t) 0 (- 1074) else fround (z < 0) (nat \<bar>z\<bar>) k)"

text \<open>The conversion of a non-negative integer constant (\<open>0\<close>, \<open>2\<close>) and the literals
  with an integer value (\<open>5.0\<close>, \<open>0.0\<close>).\<close>

definition double_of_nat :: "nat \<Rightarrow> double" where
  "double_of_nat n = fround False n 0"

section \<open>utils/MathUtils.h\<close>

text \<open>
  \<open>constexpr double PI = 3.14159265358979323846\<close> is the double \<open>0x400921FB54442D18\<close> and
  \<open>constexpr double E = 2.71828182845904523536\<close> is \<open>0x4005BF0A8B145769\<close>: the doubles
  nearest to the decimal literals (lemmas \<open>MathUtils_PI_nearest\<close>, \<open>MathUtils_E_nearest\<close>).
\<close>

definition MathUtils_PI :: double where
  "MathUtils_PI = Finite False 7074237752028440 (- 51)"

definition MathUtils_E :: double where
  "MathUtils_E = Finite False 6121026514868073 (- 51)"

definition square :: "double \<Rightarrow> double" where
  "square x = fmul x x"

definition cube :: "double \<Rightarrow> double" where
  "cube x = fmul (fmul x x) x"

section \<open>shapes/Circle.h, shapes/Circle.cpp\<close>

text \<open>\<open>std::invalid_argument\<close> with its message; the only exception the program throws.\<close>

datatype exn = Invalid_argument string

fun what :: "exn \<Rightarrow> string" where
  "what (Invalid_argument msg) = msg"

record Circle =
  radius :: double

text \<open>\<open>static constexpr double PI = 3.14159265358979323846\<close>, the private constant of
  the class.\<close>

definition Circle_PI :: double where
  "Circle_PI = Finite False 7074237752028440 (- 51)"

text \<open>\<open>if (r <= 0) throw std::invalid_argument("Radius must be positive")\<close>; the \<open>0\<close> is
  converted to double.\<close>

definition validateRadius :: "double \<Rightarrow> exn + unit" where
  "validateRadius r =
     (if fle r (double_of_nat 0) then Inl (Invalid_argument ''Radius must be positive'')
      else Inr ())"

text \<open>The constructor: an exception leaves no object behind.\<close>

definition Circle_new :: "double \<Rightarrow> exn + Circle" where
  "Circle_new r =
     (case validateRadius r of
        Inl ex \<Rightarrow> Inl ex
      | Inr u \<Rightarrow> Inr \<lparr>radius = r\<rparr>)"

definition Circle_area :: "Circle \<Rightarrow> double" where
  "Circle_area c = fmul (fmul Circle_PI (radius c)) (radius c)"

definition Circle_perimeter :: "Circle \<Rightarrow> double" where
  "Circle_perimeter c = fmul (fmul (double_of_nat 2) Circle_PI) (radius c)"

definition Circle_getName :: "Circle \<Rightarrow> string" where
  "Circle_getName c = ''Circle''"

definition getRadius :: "Circle \<Rightarrow> double" where
  "getRadius c = radius c"

text \<open>\<open>setRadius\<close> changes the object: it returns the outcome and the object afterwards.
  The assignment is after the validation, so an exception leaves the object as it was.\<close>

definition setRadius :: "double \<Rightarrow> Circle \<Rightarrow> (exn + unit) \<times> Circle" where
  "setRadius r c =
     (case validateRadius r of
        Inl ex \<Rightarrow> (Inl ex, c)
      | Inr u \<Rightarrow> (Inr (), c\<lparr>radius := r\<rparr>))"

definition getDiameter :: "Circle \<Rightarrow> double" where
  "getDiameter c = fmul (double_of_nat 2) (radius c)"

section \<open>shapes/Rectangle.h\<close>

record Rectangle =
  width :: double
  height :: double

text \<open>
  Modelled from the spec: the constructor \<open>Rectangle::Rectangle\<close>, declared in
  \<open>Rectangle.h\<close>; its body (\<open>Rectangle.cpp\<close>) is missing. The spec: "Construction:
  accepts \<open>width\<close>, \<open>height\<close>", "No validation is performed at construction".
\<close>

definition Rectangle_new :: "double \<Rightarrow> double \<Rightarrow> exn + Rectangle" where
  "Rectangle_new w h = Inr \<lparr>width = w, height = h\<rparr>"

text \<open>
  Modelled from the spec: the body of \<open>Rectangle::area\<close> (\<open>Rectangle.cpp\<close>). The spec:
  "\<open>area = width * height\<close>".
\<close>

definition Rectangle_area :: "Rectangle \<Rightarrow> double" where
  "Rectangle_area rc = fmul (width rc) (height rc)"

text \<open>
  Modelled from the spec: the body of \<open>Rectangle::perimeter\<close> (\<open>Rectangle.cpp\<close>). The
  spec: "\<open>perimeter = 2 * (width + height)\<close>".
\<close>

definition Rectangle_perimeter :: "Rectangle \<Rightarrow> double" where
  "Rectangle_perimeter rc = fmul (double_of_nat 2) (fadd (width rc) (height rc))"

text \<open>
  Modelled from the spec: the body of \<open>Rectangle::getName\<close> (\<open>Rectangle.cpp\<close>). The
  spec: "\<open>name = "Rectangle"\<close>".
\<close>

definition Rectangle_getName :: "Rectangle \<Rightarrow> string" where
  "Rectangle_getName rc = ''Rectangle''"

section \<open>Text with numbers in it\<close>

text \<open>
  What is inserted into a stream with \<open><<\<close>, in order: a string, a double (the stream
  formats it; the digits it prints are not modelled) or \<open>std::endl\<close>. The string of an
  \<open>ostringstream\<close> is the same sequence.
\<close>

datatype token = Str string | Num double | Endl

definition Circle_getDescription :: "Circle \<Rightarrow> token list" where
  "Circle_getDescription c = [Str ''Circle with radius '', Num (radius c)]"

text \<open>
  Modelled from the spec: the body of \<open>Rectangle::getDescription\<close> (\<open>Rectangle.cpp\<close>).
  The spec: "\<open>description\<close> is a formatted string embedding both dimensions". The spec
  does not give the words around the two numbers; nothing below depends on them.
\<close>

definition Rectangle_getDescription :: "Rectangle \<Rightarrow> token list" where
  "Rectangle_getDescription rc =
     [Str ''Rectangle '', Num (width rc), Str '' x '', Num (height rc)]"

section \<open>shapes/Shape.h\<close>

text \<open>A \<open>Shape\<close> is an object of one of the two derived classes; a virtual call
  dispatches on the class.\<close>

datatype Shape = CircleShape Circle | RectangleShape Rectangle

fun area :: "Shape \<Rightarrow> double" where
  "area (CircleShape c) = Circle_area c"
| "area (RectangleShape rc) = Rectangle_area rc"

fun perimeter :: "Shape \<Rightarrow> double" where
  "perimeter (CircleShape c) = Circle_perimeter c"
| "perimeter (RectangleShape rc) = Rectangle_perimeter rc"

fun getName :: "Shape \<Rightarrow> string" where
  "getName (CircleShape c) = Circle_getName c"
| "getName (RectangleShape rc) = Rectangle_getName rc"

fun getDescription :: "Shape \<Rightarrow> token list" where
  "getDescription (CircleShape c) = Circle_getDescription c"
| "getDescription (RectangleShape rc) = Rectangle_getDescription rc"

text \<open>
  The four operations of the interface as calls on an object: a call returns its value
  and the object afterwards. All four are \<open>const\<close> member functions and the classes
  have no \<open>mutable\<close> member.
\<close>

datatype query = Area | Perimeter | GetName | GetDescription

datatype answer = Number double | Text "token list"

fun call :: "query \<Rightarrow> Shape \<Rightarrow> answer \<times> Shape" where
  "call Area s = (Number (area s), s)"
| "call Perimeter s = (Number (perimeter s), s)"
| "call GetName s = (Text [Str (getName s)], s)"
| "call GetDescription s = (Text (getDescription s), s)"

text \<open>A sequence of calls on the same object, each on the object the previous one left.\<close>

fun calls :: "query list \<Rightarrow> Shape \<Rightarrow> answer list \<times> Shape" where
  "calls [] s = ([], s)"
| "calls (q # qs) s =
     (case call q s of (a, s') \<Rightarrow> (case calls qs s' of (as, s'') \<Rightarrow> (a # as, s'')))"

section \<open>main.cpp\<close>

record Console =
  cout :: "token list"
  cerr :: "token list"

definition printShapeDetails :: "Shape \<Rightarrow> token list \<Rightarrow> token list" where
  "printShapeDetails shape out =
     out @ [Str ''Shape: '', Str (getName shape), Endl,
            Str ''  Area: '', Num (area shape), Endl,
            Str ''  Perimeter: '', Num (perimeter shape), Endl,
            Str ''  Description: ''] @ getDescription shape @ [Endl,
            Endl]"

text \<open>The three \<open>push_back\<close>s of the \<open>try\<close> block, in order; the first exception ends
  them.\<close>

definition make_shapes :: "double \<Rightarrow> double \<Rightarrow> double \<Rightarrow> double \<Rightarrow> exn + Shape list" where
  "make_shapes r1 w h r2 =
     (case Circle_new r1 of
        Inl ex \<Rightarrow> Inl ex
      | Inr c1 \<Rightarrow>
          (case Rectangle_new w h of
             Inl ex \<Rightarrow> Inl ex
           | Inr rc \<Rightarrow>
               (case Circle_new r2 of
                  Inl ex \<Rightarrow> Inl ex
                | Inr c2 \<Rightarrow> Inr [CircleShape c1, RectangleShape rc, CircleShape c2])))"

text \<open>The second loop: \<open>totalArea\<close> starts at \<open>0.0\<close> and adds the areas in order.\<close>

definition totalArea :: "Shape list \<Rightarrow> double" where
  "totalArea shapes = foldl (\<lambda>t shape. fadd t (area shape)) (double_of_nat 0) shapes"

text \<open>
  \<open>main\<close> with its four literals as parameters: the exit status and what was written to
  the two streams. \<open>argc\<close> and \<open>argv\<close> are not used.
\<close>

definition main_with :: "double \<Rightarrow> double \<Rightarrow> double \<Rightarrow> double \<Rightarrow> int \<times> Console" where
  "main_with r1 w h r2 =
     (let out0 = [Str ''Shape Calculator v1.0'', Endl,
                  Str ''====================='', Endl, Endl]
      in case make_shapes r1 w h r2 of
           Inr shapes \<Rightarrow>
             (let out1 = foldl (\<lambda>out shape. printShapeDetails shape out) out0 shapes;
                  out2 = out1 @ [Str ''Total area of all shapes: '', Num (totalArea shapes), Endl]
              in (0, \<lparr>cout = out2, cerr = []\<rparr>))
         | Inl e \<Rightarrow> (1, \<lparr>cout = out0, cerr = [Str ''Error: '', Str (what e), Endl]\<rparr>))"

text \<open>The program: \<open>Circle(5.0)\<close>, \<open>Rectangle(4.0, 6.0)\<close>, \<open>Circle(3.0)\<close>.\<close>

definition main :: "int \<times> Console" where
  "main = main_with (double_of_nat 5) (double_of_nat 4) (double_of_nat 6) (double_of_nat 3)"

section \<open>Evaluating the arithmetic\<close>

lemma floorlog_2_eq: "2 ^ (k - 1) \<le> M \<Longrightarrow> M < 2 ^ k \<Longrightarrow> floorlog 2 M = k"
  by (simp add: floorlog_geI floorlog_leI order_antisym)

lemmas fround_eval = fround_def round_shift_def scaled_def

lemmas product_bits = floorlog_2_eq [where k = 105] floorlog_2_eq [where k = 106]

lemma double_of_nat_literals:
  "double_of_nat 2 = Finite False 4503599627370496 (- 51)"
  "double_of_nat 3 = Finite False 6755399441055744 (- 51)"
  "double_of_nat 4 = Finite False 4503599627370496 (- 50)"
  "double_of_nat 5 = Finite False 5629499534213120 (- 50)"
  "double_of_nat 6 = Finite False 6755399441055744 (- 50)"
  by (simp_all add: double_of_nat_def fround_eval
      floorlog_2_eq [where k = 2] floorlog_2_eq [where k = 3])

lemma valof_literals:
  "valof (double_of_nat 2) = 2" "valof (double_of_nat 3) = 3" "valof (double_of_nat 4) = 4"
  "valof (double_of_nat 5) = 5" "valof (double_of_nat 6) = 6"
  by (simp_all add: double_of_nat_literals)

section \<open>The arithmetic stays within the doubles\<close>

lemma round_shift_le:
  assumes "0 < sh" "M < 2 ^ (sh + j)"
  shows "round_shift M sh \<le> 2 ^ j"
proof -
  have "M div 2 ^ sh < 2 ^ j"
    using assms(2) by (simp add: less_mult_imp_div_less power_add mult.commute)
  then show ?thesis
    using assms(1) by (simp add: round_shift_def Let_def)
qed

lemma round_shift_ge:
  assumes "2 ^ (sh + j) \<le> M"
  shows "2 ^ j \<le> round_shift M sh"
proof -
  have "2 ^ j * 2 ^ sh \<le> M"
    using assms by (simp add: power_add mult.commute)
  then have "2 ^ j \<le> M div 2 ^ sh"
    by (simp add: less_eq_div_iff_mult_less_eq)
  then show ?thesis
    by (cases "sh = 0") (auto simp: round_shift_def Let_def)
qed

text \<open>Every result of \<open>fround\<close> is a double in the canonical representation.\<close>

lemma is_double_fround: "is_double (fround s M E)"
proof (cases "M = 0")
  case True
  then show ?thesis by (simp add: fround_def)
next
  case False
  define k where "k = floorlog 2 M"
  define sh where "sh = max (int k - 53) (- 1074 - E)"
  have kb: "2 ^ (k - 1) \<le> M" "M < 2 ^ k"
    using floorlog_bounds [of M 2] False by (simp_all add: k_def)
  have k: "0 < k"
    using kb False by (cases k) auto
  have sh': "max (int (floorlog 2 M) - 53) (- 1074 - E) = sh"
    by (simp add: sh_def k_def)
  have shk: "int k - 53 \<le> sh" and e: "- 1074 \<le> E + sh"
    and alt: "sh = int k - 53 \<or> E + sh = - 1074"
    unfolding sh_def by linarith+
  show ?thesis
  proof (cases "sh \<le> 0")
    case True
    have fr: "fround s M E =
        (if 971 < E + sh then Infinity s else Finite s (M * 2 ^ nat (- sh)) (E + sh))"
      unfolding fround_def Let_def sh' using False True by simp
    have "k + nat (- sh) \<le> 53"
      using True shk by linarith
    then have "(2::nat) ^ (k + nat (- sh)) \<le> 2 ^ 53"
      by (intro power_increasing) simp_all
    then have "(2::nat) ^ k * 2 ^ nat (- sh) \<le> 2 ^ 53"
      by (simp only: power_add)
    moreover have "M * 2 ^ nat (- sh) < 2 ^ k * 2 ^ nat (- sh)"
      using kb(2) by (intro mult_strict_right_mono) simp_all
    ultimately have m: "M * 2 ^ nat (- sh) < 2 ^ 53"
      by (rule less_le_trans [rotated])
    have n: "E + sh = - 1074 \<or> 2 ^ 52 \<le> M * 2 ^ nat (- sh)"
    proof (cases "sh = int k - 53")
      case True
      then have "k - 1 + nat (- sh) = 52"
        using k \<open>sh \<le> 0\<close> by simp
      then have "(2::nat) ^ 52 = 2 ^ (k - 1) * 2 ^ nat (- sh)"
        by (simp add: power_add [symmetric])
      also have "\<dots> \<le> M * 2 ^ nat (- sh)"
        using kb(1) by simp
      finally show ?thesis by simp
    next
      case False
      then show ?thesis using alt by simp
    qed
    show ?thesis
      using m e n by (simp add: fr)
  next
    case pos: False
    let ?m = "round_shift M (nat sh)"
    have fr: "fround s M E =
        (if 971 < (if ?m = 2 ^ 53 then E + sh + 1 else E + sh) then Infinity s
         else Finite s (if ?m = 2 ^ 53 then 2 ^ 52 else ?m)
           (if ?m = 2 ^ 53 then E + sh + 1 else E + sh))"
      unfolding fround_def Let_def sh' using False pos by simp
    have "k \<le> nat sh + 53"
      using shk by linarith
    then have "(2::nat) ^ k \<le> 2 ^ (nat sh + 53)"
      by (intro power_increasing) simp_all
    then have "M < 2 ^ (nat sh + 53)"
      using kb(2) by linarith
    then have m: "?m \<le> 2 ^ 53"
      using pos by (intro round_shift_le) simp_all
    have n: "E + sh = - 1074 \<or> 2 ^ 52 \<le> ?m"
    proof (cases "sh = int k - 53")
      case True
      then have "nat sh + 52 = k - 1"
        using k pos by simp
      then have "2 ^ (nat sh + 52) \<le> M"
        using kb(1) by simp
      then have "2 ^ 52 \<le> ?m"
        by (rule round_shift_ge)
      then show ?thesis by simp
    next
      case False
      then show ?thesis using alt by simp
    qed
    show ?thesis
    proof (cases "?m = 2 ^ 53")
      case True
      then show ?thesis using e by (simp add: fr)
    next
      case False
      then have "?m < 2 ^ 53" using m by simp
      then show ?thesis using False e n by (simp add: fr)
    qed
  qed
qed

lemma is_double_fmul: "is_double (fmul x y)"
  by (cases x; cases y) (simp_all add: is_double_fround)

lemma is_double_fadd: "is_double (fadd x y)"
  by (cases x; cases y) (simp_all add: is_double_fround Let_def)

text \<open>A number that is a double already is not changed by rounding.\<close>

lemma fround_double:
  assumes "is_double (Finite s m e)"
  shows "fround s m e = Finite s m e"
proof (cases "m = 0")
  case True
  then show ?thesis using assms by (simp add: fround_def)
next
  case False
  have "floorlog 2 m \<le> 53"
    using assms by (simp add: floorlog_le_iff)
  moreover have "floorlog 2 m = 53" if "2 ^ 52 \<le> m"
    using that assms by (intro floorlog_2_eq) simp_all
  ultimately have "max (int (floorlog 2 m) - 53) (- 1074 - e) = 0"
    using assms by auto
  then show ?thesis
    using False assms by (simp add: fround_def)
qed

section \<open>The rounding error of a multiplication\<close>

lemma round_shift_error:
  assumes "0 < sh"
  shows "\<bar>real (round_shift M sh) * 2 ^ sh - real M\<bar> \<le> 2 ^ (sh - 1)"
proof -
  define q where "q = M div 2 ^ sh"
  define r where "r = M mod 2 ^ sh"
  define h :: nat where "h = 2 ^ (sh - 1)"
  have two: "(2::nat) ^ sh = 2 * h"
    using assms by (simp add: h_def power_eq_if)
  have M: "M = q * (2 * h) + r"
    using div_mult_mod_eq [of M "2 ^ sh"] by (simp add: q_def r_def two)
  have r: "r < 2 * h"
    by (simp add: r_def two [symmetric])
  have rs: "round_shift M sh = (if h < r \<or> (r = h \<and> odd q) then q + 1 else q)"
    using assms by (simp add: round_shift_def q_def r_def h_def Let_def)
  have "\<bar>real (round_shift M sh) * (2 * real h) - real M\<bar> \<le> real h"
  proof (cases "h < r \<or> (r = h \<and> odd q)")
    case True
    then have "h \<le> r" by auto
    have "real (round_shift M sh) = real q + 1"
      using True by (simp add: rs)
    moreover have "real M = real q * (2 * real h) + real r"
      by (subst M) simp
    ultimately have "real (round_shift M sh) * (2 * real h) - real M = 2 * real h - real r"
      by (simp add: algebra_simps)
    then show ?thesis using \<open>h \<le> r\<close> r by simp
  next
    case False
    then have "r \<le> h" by auto
    have "real (round_shift M sh) = real q"
      using False by (simp add: rs)
    moreover have "real M = real q * (2 * real h) + real r"
      by (subst M) simp
    ultimately have "real (round_shift M sh) * (2 * real h) - real M = - real r"
      by (simp add: algebra_simps)
    then show ?thesis using \<open>r \<le> h\<close> by simp
  qed
  moreover have "(2::real) ^ sh = 2 * real h"
    using two by (metis of_nat_numeral of_nat_power of_nat_mult)
  moreover have "real h = 2 ^ (sh - 1)"
    by (simp add: h_def)
  ultimately show ?thesis by simp
qed

lemma round_shift_exact:
  assumes "2 ^ sh dvd M"
  shows "real (round_shift M sh) * 2 ^ sh = real M"
proof -
  have "M mod 2 ^ sh = 0" using assms by simp
  then have "round_shift M sh = M div 2 ^ sh"
    by (simp add: round_shift_def Let_def)
  then have "round_shift M sh * 2 ^ sh = M"
    using assms by simp
  then show ?thesis
    by (metis of_nat_numeral of_nat_power of_nat_mult)
qed

lemma powi_less_cancel:
  "(2::real) powi a < 2 powi b \<Longrightarrow> a < b"
  by (rule ccontr) (simp add: not_less power_int_increasing leD)

lemma powi_split: "(2::real) powi (a + b) = 2 powi a * 2 powi b"
  by (simp add: power_int_add)

lemma powi_nat: "0 \<le> a \<Longrightarrow> (2::real) powi a = 2 ^ nat a"
  by (metis int_nat_eq power_int_of_nat)

text \<open>The value of a finite result of \<open>fround\<close>, by the number of bits dropped.\<close>

lemma fround_value:
  assumes M: "0 < M" and fin: "fround s M E = Finite t m e"
    and sh: "sh = max (int (floorlog 2 M) - 53) (- 1074 - E)"
  shows "t = s"
    and "real m * 2 powi e =
      (if sh \<le> 0 then real M * 2 powi E
       else real (round_shift M (nat sh)) * 2 powi (E + sh))"
proof -
  show "t = s"
    using M fin by (auto simp: fround_def Let_def split: if_splits)
  show "real m * 2 powi e =
      (if sh \<le> 0 then real M * 2 powi E
       else real (round_shift M (nat sh)) * 2 powi (E + sh))"
  proof (cases "sh \<le> 0")
    case True
    then have me: "m = M * 2 ^ nat (- sh)" "e = E + sh"
      using M fin sh by (auto simp: fround_def Let_def split: if_splits)
    have "(2::real) ^ nat (- sh) = 2 powi (- sh)"
      using True by (simp add: powi_nat)
    then have "real m * 2 powi e = real M * (2 powi (- sh) * 2 powi (E + sh))"
      by (simp add: me)
    also have "2 powi (- sh) * 2 powi (E + sh) = (2::real) powi E"
      by (simp add: powi_split [symmetric])
    finally show ?thesis using True by simp
  next
    case False
    let ?m0 = "round_shift M (nat sh)"
    have "(m = 2 ^ 52 \<and> e = E + sh + 1 \<and> ?m0 = 2 ^ 53) \<or> (m = ?m0 \<and> e = E + sh)"
      using M fin sh False by (auto simp: fround_def Let_def split: if_splits)
    then have "real m * 2 powi e = real ?m0 * 2 powi (E + sh)"
    proof
      assume a: "m = 2 ^ 52 \<and> e = E + sh + 1 \<and> ?m0 = 2 ^ 53"
      have "(2::real) powi (E + sh + 1) = 2 powi (E + sh) * 2"
        by (simp add: powi_split)
      with a show ?thesis by simp
    qed simp
    then show ?thesis using False by simp
  qed
qed

lemma fround_normal:
  assumes lo: "2 powi (- 1022) \<le> real M * 2 powi E"
    and hi: "real M * 2 powi E < 2 powi 1023"
  shows "\<exists>m e. fround s M E = Finite s m e \<and>
    \<bar>real m * 2 powi e - real M * 2 powi E\<bar> \<le> 2 powi (- 53) * (real M * 2 powi E)"
proof -
  define k where "k = floorlog 2 M"
  define sh where "sh = max (int k - 53) (- 1074 - E)"
  have pos: "(0::real) < 2 powi (- 1022)" by simp
  have M: "0 < M"
  proof (rule ccontr)
    assume "\<not> 0 < M"
    then have "real M * 2 powi E = 0" by simp
    with lo pos show False by linarith
  qed
  have kb: "2 ^ (k - 1) \<le> M" "M < 2 ^ k"
    using floorlog_bounds [of M 2] M by (simp_all add: k_def)
  have k: "0 < k"
    using kb M by (cases k) auto
  have E: "(0::real) < 2 powi E" by simp
  have "real M < 2 ^ k"
    using kb(2) by (metis of_nat_less_iff of_nat_numeral of_nat_power)
  then have "real M * 2 powi E < 2 ^ k * 2 powi E"
    using E by simp
  also have "\<dots> = 2 powi (int k + E)"
    by (simp add: powi_split)
  finally have "(2::real) powi (- 1022) < 2 powi (int k + E)"
    using lo by linarith
  then have low: "- 1022 < int k + E"
    by (rule powi_less_cancel)
  have "(2::real) ^ (k - 1) \<le> real M"
    using kb(1) by (metis of_nat_le_iff of_nat_numeral of_nat_power)
  then have ge: "2 ^ (k - 1) * 2 powi E \<le> real M * 2 powi E"
    using E by simp
  have km: "(2::real) ^ (k - 1) * 2 powi E = 2 powi (int k - 1 + E)"
    using k by (simp add: powi_split of_nat_diff flip: power_int_of_nat)
  have "(2::real) powi (int k - 1 + E) < 2 powi 1023"
    using ge hi km by linarith
  then have high: "int k - 1 + E < 1023"
    by (rule powi_less_cancel)
  have sh: "sh = int k - 53"
    using low by (simp add: sh_def)
  have sh': "sh = max (int (floorlog 2 M) - 53) (- 1074 - E)"
    by (simp add: sh_def k_def)
  have fin: "\<exists>m e. fround s M E = Finite s m e"
    using M high sh sh' by (auto simp: fround_def Let_def)
  then obtain m e where me: "fround s M E = Finite s m e" by blast
  have val: "real m * 2 powi e =
      (if sh \<le> 0 then real M * 2 powi E
       else real (round_shift M (nat sh)) * 2 powi (E + sh))"
    using fround_value(2) [OF M me sh'] .
  have "\<bar>real m * 2 powi e - real M * 2 powi E\<bar> \<le> 2 powi (- 53) * (real M * 2 powi E)"
  proof (cases "sh \<le> 0")
    case True
    then show ?thesis using val E by simp
  next
    case False
    let ?m0 = "round_shift M (nat sh)"
    have shn: "0 < nat sh" using False by simp
    have err: "\<bar>real ?m0 * 2 ^ nat sh - real M\<bar> \<le> 2 ^ (nat sh - 1)"
      using round_shift_error [OF shn] .
    have p: "(2::real) powi (E + sh) = 2 ^ nat sh * 2 powi E"
      using False by (simp add: powi_split powi_nat)
    have "real m * 2 powi e - real M * 2 powi E = (real ?m0 * 2 ^ nat sh - real M) * 2 powi E"
      using val False by (simp add: p algebra_simps)
    then have "\<bar>real m * 2 powi e - real M * 2 powi E\<bar> =
        \<bar>real ?m0 * 2 ^ nat sh - real M\<bar> * 2 powi E"
      using E by (simp add: abs_mult)
    also have "\<dots> \<le> 2 ^ (nat sh - 1) * 2 powi E"
      using err E by simp
    also have "(2::real) ^ (nat sh - 1) = 2 powi (- 53) * 2 ^ (k - 1)"
    proof -
      have "int (nat sh - 1) = - 53 + int (k - 1)"
        using False sh k by simp
      then have "(2::real) powi int (nat sh - 1) = 2 powi (- 53 + int (k - 1))"
        by simp
      then show ?thesis
        by (simp only: powi_split power_int_of_nat)
    qed
    also have "2 powi (- 53) * 2 ^ (k - 1) * 2 powi E \<le> 2 powi (- 53) * (real M * 2 powi E)"
      using ge by simp
    finally show ?thesis .
  qed
  with me show ?thesis by blast
qed

lemma powi_le_cancel:
  "(2::real) powi a \<le> 2 powi b \<Longrightarrow> a \<le> b"
proof (rule ccontr)
  assume a: "(2::real) powi a \<le> 2 powi b" "\<not> a \<le> b"
  then have "(2::real) powi b < 2 powi a"
    by (simp add: power_int_strict_increasing)
  with a show False by simp
qed

text \<open>A product in the range of the normal numbers is finite and has a relative error of
  at most \<open>2^-53\<close>.\<close>

lemma fmul_error:
  assumes lo: "2 powi (- 1022) \<le> \<bar>valof (Finite s m e) * valof (Finite t n f)\<bar>"
    and hi: "\<bar>valof (Finite s m e) * valof (Finite t n f)\<bar> < 2 powi 1023"
  shows "\<exists>m' e'. fmul (Finite s m e) (Finite t n f) = Finite (s \<noteq> t) m' e' \<and>
    \<bar>valof (Finite (s \<noteq> t) m' e') - valof (Finite s m e) * valof (Finite t n f)\<bar>
      \<le> 2 powi (- 53) * \<bar>valof (Finite s m e) * valof (Finite t n f)\<bar>"
proof -
  define x where "x = real (m * n) * 2 powi (e + f)"
  define sg :: real where "sg = (if s \<noteq> t then - 1 else 1)"
  have x0: "0 \<le> x" by (simp add: x_def)
  have prod: "valof (Finite s m e) * valof (Finite t n f) = sg * x"
    by (simp add: x_def sg_def powi_split)
  have sg: "\<bar>sg\<bar> = 1" by (simp add: sg_def)
  have ax: "\<bar>valof (Finite s m e) * valof (Finite t n f)\<bar> = x"
    unfolding prod using x0 sg by (simp add: abs_mult)
  obtain m' e' where fr: "fround (s \<noteq> t) (m * n) (e + f) = Finite (s \<noteq> t) m' e'"
    and err: "\<bar>real m' * 2 powi e' - x\<bar> \<le> 2 powi (- 53) * x"
    using fround_normal [of "m * n" "e + f" "s \<noteq> t"] lo hi unfolding ax x_def by blast
  have "valof (Finite (s \<noteq> t) m' e') - valof (Finite s m e) * valof (Finite t n f) =
      sg * (real m' * 2 powi e' - x)"
    by (simp only: prod) (simp add: sg_def algebra_simps)
  then have "\<bar>valof (Finite (s \<noteq> t) m' e') - valof (Finite s m e) * valof (Finite t n f)\<bar> =
      \<bar>real m' * 2 powi e' - x\<bar>"
    using sg by (simp only: abs_mult) simp
  with err have "\<bar>valof (Finite (s \<noteq> t) m' e') - valof (Finite s m e) * valof (Finite t n f)\<bar>
      \<le> 2 powi (- 53) * \<bar>valof (Finite s m e) * valof (Finite t n f)\<bar>"
    by (simp only: ax)
  moreover have "fmul (Finite s m e) (Finite t n f) = Finite (s \<noteq> t) m' e'"
    using fr by simp
  ultimately show ?thesis by blast
qed

lemma normal_range:
  assumes d: "is_double (Finite s m e)"
    and lo: "2 powi (- 500) \<le> real m * 2 powi e"
    and hi: "real m * 2 powi e \<le> 2 powi 500"
  shows "2 ^ 52 \<le> m" and "m < 2 ^ 53" and "e \<le> 448"
proof -
  show m: "m < 2 ^ 53" using d by simp
  have E: "(0::real) < 2 powi e" by simp
  show n: "2 ^ 52 \<le> m"
  proof (rule ccontr)
    assume a: "\<not> 2 ^ 52 \<le> m"
    with d have e: "e = - 1074" by simp
    from a have "real m < 2 ^ 52"
      by (metis not_le of_nat_less_iff of_nat_numeral of_nat_power)
    then have "real m * 2 powi e < 2 ^ 52 * 2 powi e"
      using E by simp
    also have "\<dots> = 2 powi (- 1022)"
      unfolding e by (simp only: power_int_of_nat [symmetric] powi_split [symmetric]) simp
    finally have "(2::real) powi (- 500) < 2 powi (- 1022)"
      using lo by linarith
    then show False
      using powi_less_cancel by fastforce
  qed
  have "(2::real) ^ 52 \<le> real m"
    using n by (metis of_nat_le_iff of_nat_numeral of_nat_power)
  then have "2 ^ 52 * 2 powi e \<le> real m * 2 powi e"
    using E by simp
  moreover have "(2::real) ^ 52 * 2 powi e = 2 powi (52 + e)"
    by (simp only: power_int_of_nat [symmetric] powi_split [symmetric]) simp
  ultimately have "(2::real) powi (52 + e) \<le> 2 powi 500"
    using hi by linarith
  then have "52 + e \<le> 500"
    by (rule powi_le_cancel)
  then show "e \<le> 448" by simp
qed

text \<open>Doubling a normal number below the largest binade is exact.\<close>

lemma fmul_two_exact:
  assumes "2 ^ 52 \<le> m" "m < 2 ^ 53" "- 1074 \<le> e" "e < 971"
  shows "fmul (Finite False 4503599627370496 (- 51)) (Finite False m e) = Finite False m (e + 1)"
proof -
  have k: "floorlog 2 (4503599627370496 * m) = 105"
    using assms by (intro floorlog_2_eq) simp_all
  have d: "4503599627370496 * m div 2 ^ 52 = m" "4503599627370496 * m mod 2 ^ 52 = 0"
    by simp_all
  have sh: "max (52::int) (- 1074 - (- 51 + e)) = 52"
    using assms by simp
  show ?thesis
    using assms by (simp add: fround_def k sh round_shift_def d)
qed

lemma fmul_finite_error:
  assumes "is_finite x" "is_finite y"
    and lo: "2 powi (- 1022) \<le> \<bar>valof x * valof y\<bar>"
    and hi: "\<bar>valof x * valof y\<bar> < 2 powi 1023"
  shows "is_finite (fmul x y)"
    and "\<bar>valof (fmul x y) - valof x * valof y\<bar> \<le> 2 powi (- 53) * \<bar>valof x * valof y\<bar>"
proof -
  obtain s m e t n f where xy: "x = Finite s m e" "y = Finite t n f"
    using assms(1,2) by (cases x; cases y) auto
  obtain m' e' where "fmul x y = Finite (s \<noteq> t) m' e'"
    and "\<bar>valof (Finite (s \<noteq> t) m' e') - valof x * valof y\<bar>
      \<le> 2 powi (- 53) * \<bar>valof x * valof y\<bar>"
    using fmul_error [of s m e t n f] lo hi unfolding xy by blast
  then show "is_finite (fmul x y)"
    and "\<bar>valof (fmul x y) - valof x * valof y\<bar> \<le> 2 powi (- 53) * \<bar>valof x * valof y\<bar>"
    by simp_all
qed

lemma fmul_commute: "fmul x y = fmul y x"
proof -
  have "(s \<noteq> t) = (t \<noteq> s)" for s t :: bool by auto
  then show ?thesis
    by (cases x; cases y) (simp_all add: mult.commute add.commute)
qed

lemma powi_half: "(2::real) powi a / 2 = 2 powi (a - 1)" "2 * (2::real) powi a = 2 powi (a + 1)"
  by (simp_all add: power_int_diff powi_split)

text \<open>Two multiplications in a row, \<open>(x * y) * z\<close>: when the exact products lie
  between \<open>2^-1021\<close> and \<open>2^1021\<close> in absolute value, the result is finite and within a
  relative error of \<open>2^-51\<close> of the exact product.\<close>

lemma fmul_fmul_error:
  assumes fin: "is_finite x" "is_finite y" "is_finite z"
    and xy: "2 powi (- 1021) \<le> \<bar>valof x * valof y\<bar>" "\<bar>valof x * valof y\<bar> \<le> 2 powi 1021"
    and xyz: "2 powi (- 1021) \<le> \<bar>valof x * valof y * valof z\<bar>"
      "\<bar>valof x * valof y * valof z\<bar> \<le> 2 powi 1021"
  shows "is_finite (fmul (fmul x y) z)"
    and "\<bar>valof (fmul (fmul x y) z) - valof x * valof y * valof z\<bar>
      \<le> 2 powi (- 51) * \<bar>valof x * valof y * valof z\<bar>"
proof -
  define Q where "Q = valof x * valof y"
  define Z where "Z = valof z"
  define p where "p = valof (fmul x y)"
  define a where "a = valof (fmul (fmul x y) z)"
  define u :: real where "u = 2 powi (- 53)"
  have u: "0 < u" "u \<le> 1 / 2" by (simp_all add: u_def)
  have Q: "2 powi (- 1021) \<le> \<bar>Q\<bar>" "\<bar>Q\<bar> \<le> 2 powi 1021"
    using xy by (simp_all add: Q_def)
  have QZ: "2 powi (- 1021) \<le> \<bar>Q\<bar> * \<bar>Z\<bar>" "\<bar>Q\<bar> * \<bar>Z\<bar> \<le> 2 powi 1021"
    using xyz by (simp_all add: Q_def Z_def abs_mult)
  have Z0: "0 \<le> \<bar>Z\<bar>" and Q0: "0 \<le> \<bar>Q\<bar>" by simp_all
  have up: "(2::real) powi (- 1022) \<le> 2 powi (- 1021)" "(2::real) powi 1021 < 2 powi 1023"
    "(2::real) powi 1022 < 2 powi 1023"
    by (rule power_int_increasing power_int_strict_increasing; simp)+
  have s1: "is_finite (fmul x y)" and e1: "\<bar>p - Q\<bar> \<le> u * \<bar>Q\<bar>"
    using fmul_finite_error [OF fin(1,2)] Q up
    unfolding Q_def p_def u_def by simp_all
  have "u * \<bar>Q\<bar> \<le> 1 / 2 * \<bar>Q\<bar>"
    using u by (intro mult_right_mono) simp_all
  with e1 have plo: "\<bar>Q\<bar> / 2 \<le> \<bar>p\<bar>" and p2: "\<bar>p\<bar> \<le> 2 * \<bar>Q\<bar>"
    by linarith+
  have phi: "\<bar>p\<bar> \<le> (1 + u) * \<bar>Q\<bar>"
    using e1 by (simp add: algebra_simps)
  have "\<bar>Q\<bar> / 2 * \<bar>Z\<bar> \<le> \<bar>p\<bar> * \<bar>Z\<bar>"
    using plo by (intro mult_right_mono) simp_all
  then have "2 powi (- 1021) / 2 \<le> \<bar>p\<bar> * \<bar>Z\<bar>"
    using QZ by simp
  then have pZlo: "2 powi (- 1022) \<le> \<bar>p * Z\<bar>"
    by (simp add: powi_half abs_mult)
  have "\<bar>p\<bar> * \<bar>Z\<bar> \<le> 2 * \<bar>Q\<bar> * \<bar>Z\<bar>"
    using p2 by (intro mult_right_mono) simp_all
  then have "\<bar>p\<bar> * \<bar>Z\<bar> \<le> 2 * 2 powi 1021"
    using QZ by simp
  then have pZhi: "\<bar>p * Z\<bar> < 2 powi 1023"
    using up(3) by (simp add: powi_half abs_mult)
  show "is_finite (fmul (fmul x y) z)"
    using fmul_finite_error(1) [OF s1 fin(3)] pZlo pZhi unfolding p_def Z_def by simp
  have e2: "\<bar>a - p * Z\<bar> \<le> u * (\<bar>p\<bar> * \<bar>Z\<bar>)"
    using fmul_finite_error(2) [OF s1 fin(3)] pZlo pZhi
    unfolding p_def Z_def a_def u_def by (simp add: abs_mult)
  have "a - Q * Z = (a - p * Z) + (p - Q) * Z"
    by (simp add: algebra_simps)
  then have "\<bar>a - Q * Z\<bar> \<le> \<bar>a - p * Z\<bar> + \<bar>p - Q\<bar> * \<bar>Z\<bar>"
    using abs_triangle_ineq [of "a - p * Z" "(p - Q) * Z"] by (simp add: abs_mult)
  also have "\<dots> \<le> u * (\<bar>p\<bar> * \<bar>Z\<bar>) + u * \<bar>Q\<bar> * \<bar>Z\<bar>"
    using e2 mult_right_mono [OF e1 Z0] by linarith
  also have "\<dots> \<le> u * ((1 + u) * \<bar>Q\<bar> * \<bar>Z\<bar>) + u * \<bar>Q\<bar> * \<bar>Z\<bar>"
  proof -
    have "\<bar>p\<bar> * \<bar>Z\<bar> \<le> (1 + u) * \<bar>Q\<bar> * \<bar>Z\<bar>"
      using phi by (intro mult_right_mono) simp_all
    then have "u * (\<bar>p\<bar> * \<bar>Z\<bar>) \<le> u * ((1 + u) * \<bar>Q\<bar> * \<bar>Z\<bar>)"
      using u by (intro mult_left_mono) simp_all
    then show ?thesis by simp
  qed
  also have "\<dots> = (2 * u + u * u) * (\<bar>Q\<bar> * \<bar>Z\<bar>)"
    by (simp add: algebra_simps)
  also have "\<dots> \<le> 2 powi (- 51) * (\<bar>Q\<bar> * \<bar>Z\<bar>)"
  proof -
    have "u * u \<le> u * 1"
      using u by (intro mult_left_mono) simp_all
    then have "2 * u + u * u \<le> 2 powi (- 51)"
      by (simp add: u_def)
    moreover have "0 \<le> \<bar>Q\<bar> * \<bar>Z\<bar>" by simp
    ultimately show ?thesis by (rule mult_right_mono)
  qed
  finally show "\<bar>valof (fmul (fmul x y) z) - valof x * valof y * valof z\<bar>
      \<le> 2 powi (- 51) * \<bar>valof x * valof y * valof z\<bar>"
    unfolding a_def Q_def Z_def by (simp add: abs_mult)
qed

section \<open>Comparison with zero\<close>

lemma double_of_nat_0: "double_of_nat 0 = Finite False 0 (- 1074)"
  by (simp add: double_of_nat_def fround_def)

lemma fle_zero_iff:
  "fle x (double_of_nat 0) \<longleftrightarrow>
     (case x of Finite s m e \<Rightarrow> s \<or> m = 0 | Infinity s \<Rightarrow> s | NaN \<Rightarrow> False)"
  by (cases x) (auto simp: double_of_nat_0 scaled_def mult_le_0_iff)

lemma fgt_zero_iff:
  "fgt x (double_of_nat 0) \<longleftrightarrow>
     (case x of Finite s m e \<Rightarrow> \<not> s \<and> 0 < m | Infinity s \<Rightarrow> \<not> s | NaN \<Rightarrow> False)"
  by (cases x) (auto simp: fgt_def double_of_nat_0 scaled_def zero_less_mult_iff)

lemma fgt_zero_not_fle: "fgt x (double_of_nat 0) \<Longrightarrow> \<not> fle x (double_of_nat 0)"
  by (auto simp: fle_zero_iff fgt_zero_iff split: double.splits)

section \<open>Circle: construction and mutation\<close>

text \<open>
  C1. For every radius \<open>r <= 0\<close> (zero of either sign, negative numbers, minus infinity)
  the constructor of Circle throws \<open>std::invalid_argument\<close> and yields no object; for
  every radius \<open>r > 0\<close> it yields the Circle with that radius.
\<close>

theorem Circle_new_validates:
  "(fle r (double_of_nat 0) \<longrightarrow>
      Circle_new r = Inl (Invalid_argument ''Radius must be positive'')) \<and>
   (fgt r (double_of_nat 0) \<longrightarrow> Circle_new r = Inr \<lparr>radius = r\<rparr>)"
  by (simp add: Circle_new_def validateRadius_def fgt_zero_not_fle)

text \<open>The witness: \<open>-1.0\<close>, \<open>0.0\<close> and \<open>-0.0\<close> are refused, \<open>5.0\<close> is accepted.\<close>

theorem Circle_new_validates_witness:
  "fle (Finite True 4503599627370496 (- 52)) (double_of_nat 0) \<and>
   Circle_new (Finite True 4503599627370496 (- 52)) =
     Inl (Invalid_argument ''Radius must be positive'') \<and>
   fle (Finite False 0 (- 1074)) (double_of_nat 0) \<and>
   Circle_new (Finite False 0 (- 1074)) = Inl (Invalid_argument ''Radius must be positive'') \<and>
   fle (Finite True 0 (- 1074)) (double_of_nat 0) \<and>
   Circle_new (Finite True 0 (- 1074)) = Inl (Invalid_argument ''Radius must be positive'') \<and>
   fgt (Finite False 5629499534213120 (- 50)) (double_of_nat 0) \<and>
   Circle_new (Finite False 5629499534213120 (- 50)) =
     Inr \<lparr>radius = Finite False 5629499534213120 (- 50)\<rparr>"
  using Circle_new_validates [of "Finite True 4503599627370496 (- 52)"]
    Circle_new_validates [of "Finite False 0 (- 1074)"]
    Circle_new_validates [of "Finite True 0 (- 1074)"]
    Circle_new_validates [of "Finite False 5629499534213120 (- 50)"]
  by (simp add: fle_zero_iff fgt_zero_iff)

text \<open>
  C4. For every Circle and every new value \<open>v <= 0\<close>, \<open>setRadius(v)\<close> throws
  \<open>std::invalid_argument\<close> and leaves the object as it was, so a radius \<open>r0 > 0\<close>
  stays \<open>r0\<close>; for every \<open>v > 0\<close> it returns normally and the radius is \<open>v\<close>.
\<close>

theorem setRadius_validates:
  "(fle v (double_of_nat 0) \<longrightarrow>
      setRadius v c = (Inl (Invalid_argument ''Radius must be positive''), c)) \<and>
   (fgt v (double_of_nat 0) \<longrightarrow>
      setRadius v c = (Inr (), c\<lparr>radius := v\<rparr>) \<and> getRadius (snd (setRadius v c)) = v)"
  by (simp add: setRadius_def validateRadius_def getRadius_def fgt_zero_not_fle)

theorem setRadius_validates_witness:
  "fle (Finite True 4503599627370496 (- 52)) (double_of_nat 0) \<and>
   setRadius (Finite True 4503599627370496 (- 52))
       \<lparr>radius = Finite False 5629499534213120 (- 50)\<rparr> =
     (Inl (Invalid_argument ''Radius must be positive''),
      \<lparr>radius = Finite False 5629499534213120 (- 50)\<rparr>) \<and>
   fgt (Finite False 6755399441055744 (- 51)) (double_of_nat 0) \<and>
   setRadius (Finite False 6755399441055744 (- 51))
       \<lparr>radius = Finite False 5629499534213120 (- 50)\<rparr> =
     (Inr (), \<lparr>radius = Finite False 6755399441055744 (- 51)\<rparr>)"
  using setRadius_validates [of "Finite True 4503599627370496 (- 52)"
      "\<lparr>radius = Finite False 5629499534213120 (- 50)\<rparr>"]
    setRadius_validates [of "Finite False 6755399441055744 (- 51)"
      "\<lparr>radius = Finite False 5629499534213120 (- 50)\<rparr>"]
  by (simp add: fle_zero_iff fgt_zero_iff)

text \<open>
  What validation does keep: a constructed Circle never has a radius \<open><= 0\<close>, and
  \<open>setRadius\<close> keeps that, whether it throws or not.
\<close>

lemma Circle_new_not_fle:
  "Circle_new r = Inr c \<Longrightarrow> \<not> fle (radius c) (double_of_nat 0)"
  by (auto simp: Circle_new_def validateRadius_def split: if_splits)

lemma setRadius_not_fle:
  "\<not> fle (radius c) (double_of_nat 0) \<Longrightarrow>
   \<not> fle (radius (snd (setRadius v c))) (double_of_nat 0)"
  by (simp add: setRadius_def validateRadius_def)

text \<open>
  C5. The invariant \<open>radius > 0\<close> does not hold for every Circle: the test \<open>r <= 0\<close> is
  false for a NaN, so \<open>Circle(NaN)\<close> is constructed, and \<open>setRadius(NaN)\<close> is committed
  on a Circle of radius 5; the radius is then a NaN, which is not \<open>> 0\<close>.
\<close>

theorem Circle_NaN_accepted:
  "Circle_new NaN = Inr \<lparr>radius = NaN\<rparr> \<and>
   \<not> fgt (radius \<lparr>radius = NaN\<rparr>) (double_of_nat 0) \<and>
   fgt (radius \<lparr>radius = Finite False 5629499534213120 (- 50)\<rparr>) (double_of_nat 0) \<and>
   setRadius NaN \<lparr>radius = Finite False 5629499534213120 (- 50)\<rparr> =
     (Inr (), \<lparr>radius = NaN\<rparr>)"
  by (simp add: Circle_new_def setRadius_def validateRadius_def fle_zero_iff fgt_zero_iff)

section \<open>Rectangle\<close>

text \<open>
  C3. For every width and height (negative, zero, infinite or NaN alike) the
  construction of a Rectangle succeeds, and the object's \<open>area()\<close> is \<open>width * height\<close>
  and its \<open>perimeter()\<close> is \<open>2 * (width + height)\<close>, in double arithmetic.
\<close>

theorem Rectangle_any_dimensions:
  "Rectangle_new w h = Inr \<lparr>width = w, height = h\<rparr> \<and>
   Rectangle_area \<lparr>width = w, height = h\<rparr> = fmul w h \<and>
   Rectangle_perimeter \<lparr>width = w, height = h\<rparr> = fmul (double_of_nat 2) (fadd w h)"
  by (simp add: Rectangle_new_def Rectangle_area_def Rectangle_perimeter_def)

section \<open>The interface: calls without effect\<close>

text \<open>
  C8. In any sequence of calls of \<open>area()\<close>, \<open>perimeter()\<close>, \<open>getName()\<close> and
  \<open>getDescription()\<close> on a shape, every call returns what that call returns on the
  object at the start, so equal calls return equal values, and the object is left as it
  was.
\<close>

theorem calls_pure:
  "calls qs s = (map (\<lambda>q. fst (call q s)) qs, s)"
proof (induction qs)
  case Nil
  show ?case by simp
next
  case (Cons q qs)
  then show ?case by (cases q) simp_all
qed

section \<open>The driver\<close>

lemma make_shapes_cases:
  "make_shapes r1 w h r2 =
     (if fle r1 (double_of_nat 0) \<or> fle r2 (double_of_nat 0)
      then Inl (Invalid_argument ''Radius must be positive'')
      else Inr [CircleShape \<lparr>radius = r1\<rparr>, RectangleShape \<lparr>width = w, height = h\<rparr>,
                CircleShape \<lparr>radius = r2\<rparr>])"
  by (simp add: make_shapes_def Circle_new_def validateRadius_def Rectangle_new_def)

text \<open>
  C6. The program returns 0. With the four literals of \<open>main\<close> as parameters: when
  the three constructors return normally the exit status is 0, nothing is written to
  \<open>cerr\<close> and the last line of \<open>cout\<close> is the total area; when one of them throws
  \<open>ex\<close>, the exit status is 1, \<open>cerr\<close> receives \<open>"Error: "\<close>, the message of \<open>ex\<close>
  and a line end, and \<open>cout\<close> holds the two header lines only: no shape and no
  total-area line.
\<close>

theorem main_exit_status:
  "fst main = 0 \<and>
   ((\<exists>c1 rc c2. Circle_new r1 = Inr c1 \<and> Rectangle_new w h = Inr rc \<and> Circle_new r2 = Inr c2) \<longrightarrow>
      fst (main_with r1 w h r2) = 0 \<and>
      cerr (snd (main_with r1 w h r2)) = [] \<and>
      (\<exists>out. cout (snd (main_with r1 w h r2)) =
         out @ [Str ''Total area of all shapes: '',
                Num (totalArea [CircleShape \<lparr>radius = r1\<rparr>,
                  RectangleShape \<lparr>width = w, height = h\<rparr>, CircleShape \<lparr>radius = r2\<rparr>]),
                Endl])) \<and>
   (Circle_new r1 = Inl ex \<or> Rectangle_new w h = Inl ex \<or> Circle_new r2 = Inl ex \<longrightarrow>
      fst (main_with r1 w h r2) = 1 \<and>
      cerr (snd (main_with r1 w h r2)) = [Str ''Error: '', Str (what ex), Endl] \<and>
      cout (snd (main_with r1 w h r2)) =
        [Str ''Shape Calculator v1.0'', Endl, Str ''====================='', Endl, Endl] \<and>
      Str ''Total area of all shapes: '' \<notin> set (cout (snd (main_with r1 w h r2))))"
proof (intro conjI impI)
  show "fst main = 0"
    by (simp add: main_def main_with_def make_shapes_cases fle_zero_iff
        double_of_nat_literals)
next
  assume "\<exists>c1 rc c2. Circle_new r1 = Inr c1 \<and> Rectangle_new w h = Inr rc \<and> Circle_new r2 = Inr c2"
  then have ok: "\<not> fle r1 (double_of_nat 0)" "\<not> fle r2 (double_of_nat 0)"
    by (auto simp: Circle_new_def validateRadius_def split: if_splits)
  show "fst (main_with r1 w h r2) = 0"
    using ok by (simp add: main_with_def make_shapes_cases)
  show "cerr (snd (main_with r1 w h r2)) = []"
    using ok by (simp add: main_with_def make_shapes_cases)
  show "\<exists>out. cout (snd (main_with r1 w h r2)) =
         out @ [Str ''Total area of all shapes: '',
                Num (totalArea [CircleShape \<lparr>radius = r1\<rparr>,
                  RectangleShape \<lparr>width = w, height = h\<rparr>, CircleShape \<lparr>radius = r2\<rparr>]),
                Endl]"
    using ok by (simp add: main_with_def make_shapes_cases)
next
  assume "Circle_new r1 = Inl ex \<or> Rectangle_new w h = Inl ex \<or> Circle_new r2 = Inl ex"
  then have bad: "fle r1 (double_of_nat 0) \<or> fle r2 (double_of_nat 0)"
    and ex: "ex = Invalid_argument ''Radius must be positive''"
    by (auto simp: Circle_new_def validateRadius_def Rectangle_new_def split: if_splits)
  show "fst (main_with r1 w h r2) = 1"
    using bad by (simp add: main_with_def make_shapes_cases)
  show "cerr (snd (main_with r1 w h r2)) = [Str ''Error: '', Str (what ex), Endl]"
    using bad ex by (simp add: main_with_def make_shapes_cases)
  show "cout (snd (main_with r1 w h r2)) =
        [Str ''Shape Calculator v1.0'', Endl, Str ''====================='', Endl, Endl]"
    using bad by (simp add: main_with_def make_shapes_cases)
  show "Str ''Total area of all shapes: '' \<notin> set (cout (snd (main_with r1 w h r2)))"
    using bad by (simp add: main_with_def make_shapes_cases)
qed

text \<open>The witness: \<open>Circle(-1.0)\<close> as the first shape, and the program's own literals.\<close>

theorem main_exit_status_witness:
  "Circle_new (Finite True 4503599627370496 (- 52)) =
     Inl (Invalid_argument ''Radius must be positive'') \<and>
   main_with (Finite True 4503599627370496 (- 52)) (double_of_nat 4) (double_of_nat 6)
       (double_of_nat 3) =
     (1, \<lparr>cout = [Str ''Shape Calculator v1.0'', Endl, Str ''====================='', Endl, Endl],
          cerr = [Str ''Error: '', Str ''Radius must be positive'', Endl]\<rparr>) \<and>
   Circle_new (double_of_nat 5) = Inr \<lparr>radius = double_of_nat 5\<rparr> \<and>
   Rectangle_new (double_of_nat 4) (double_of_nat 6) =
     Inr \<lparr>width = double_of_nat 4, height = double_of_nat 6\<rparr> \<and>
   Circle_new (double_of_nat 3) = Inr \<lparr>radius = double_of_nat 3\<rparr> \<and>
   fst (main_with (double_of_nat 5) (double_of_nat 4) (double_of_nat 6) (double_of_nat 3)) = 0"
  using main_exit_status [of "Finite True 4503599627370496 (- 52)" "double_of_nat 4"
      "double_of_nat 6" "double_of_nat 3" "Invalid_argument ''Radius must be positive''"]
    main_exit_status [of "double_of_nat 5" "double_of_nat 4" "double_of_nat 6"
      "double_of_nat 3" "Invalid_argument ''Radius must be positive''"]
  by (simp add: Circle_new_def validateRadius_def Rectangle_new_def fle_zero_iff
      double_of_nat_literals main_with_def make_shapes_def)

lemma demo_areas:
  "Circle_area \<lparr>radius = double_of_nat 5\<rparr> = Finite False 5526748243772219 (- 46)"
  "Rectangle_area \<lparr>width = double_of_nat 4, height = double_of_nat 6\<rparr> =
     Finite False 6755399441055744 (- 48)"
  "Circle_area \<lparr>radius = double_of_nat 3\<rparr> = Finite False 7958517471031995 (- 48)"
  by (simp_all add: Circle_area_def Rectangle_area_def Circle_PI_def double_of_nat_literals
      fround_eval product_bits)

lemma demo_perimeters:
  "Circle_perimeter \<lparr>radius = double_of_nat 5\<rparr> = Finite False 8842797190035550 (- 48)"
  "Rectangle_perimeter \<lparr>width = double_of_nat 4, height = double_of_nat 6\<rparr> =
     Finite False 5629499534213120 (- 48)"
  "Circle_perimeter \<lparr>radius = double_of_nat 3\<rparr> = Finite False 5305678314021330 (- 48)"
  by (simp_all add: Circle_perimeter_def Rectangle_perimeter_def Circle_PI_def
      double_of_nat_literals fround_eval product_bits floorlog_2_eq [where k = 54])

lemma demo_total:
  "totalArea [CircleShape \<lparr>radius = double_of_nat 5\<rparr>,
              RectangleShape \<lparr>width = double_of_nat 4, height = double_of_nat 6\<rparr>,
              CircleShape \<lparr>radius = double_of_nat 3\<rparr>] =
     Finite False 4602613735897077 (- 45)"
  by (simp add: totalArea_def demo_areas double_of_nat_0 fround_eval
      floorlog_2_eq [where k = 1081] floorlog_2_eq [where k = 55]
      floorlog_2_eq [where k = 56])

text \<open>
  C7. The program builds \<open>Circle(5.0)\<close>, \<open>Rectangle(4.0, 6.0)\<close>, \<open>Circle(3.0)\<close> in that
  order and reports them in that order. Their areas are the doubles
  \<open>0x4053A28C59D5433B\<close>, \<open>24\<close> and \<open>0x403C463ABECCB2BB\<close>, within \<open>0.00005\<close> of 78.5398
  and 28.2743; the total \<open>((0.0 + a1) + a2) + a3\<close> that is printed last is
  \<open>0x40605A0D84C437F5\<close>, within \<open>0.00005\<close> of 130.8142; the exit status is 0.
\<close>

theorem main_demonstration:
  "make_shapes (double_of_nat 5) (double_of_nat 4) (double_of_nat 6) (double_of_nat 3) =
     Inr [CircleShape \<lparr>radius = double_of_nat 5\<rparr>,
          RectangleShape \<lparr>width = double_of_nat 4, height = double_of_nat 6\<rparr>,
          CircleShape \<lparr>radius = double_of_nat 3\<rparr>] \<and>
   valof (double_of_nat 5) = 5 \<and> valof (double_of_nat 4) = 4 \<and>
   valof (double_of_nat 6) = 6 \<and> valof (double_of_nat 3) = 3 \<and>
   map area [CircleShape \<lparr>radius = double_of_nat 5\<rparr>,
             RectangleShape \<lparr>width = double_of_nat 4, height = double_of_nat 6\<rparr>,
             CircleShape \<lparr>radius = double_of_nat 3\<rparr>] =
     [Finite False 5526748243772219 (- 46), Finite False 6755399441055744 (- 48),
      Finite False 7958517471031995 (- 48)] \<and>
   \<bar>valof (Finite False 5526748243772219 (- 46)) - 785398 / 10000\<bar> \<le> 5 / 100000 \<and>
   valof (Finite False 6755399441055744 (- 48)) = 24 \<and>
   \<bar>valof (Finite False 7958517471031995 (- 48)) - 282743 / 10000\<bar> \<le> 5 / 100000 \<and>
   \<bar>valof (Finite False 4602613735897077 (- 45)) - 1308142 / 10000\<bar> \<le> 5 / 100000 \<and>
   main =
     (0, \<lparr>cout =
            [Str ''Shape Calculator v1.0'', Endl, Str ''====================='', Endl, Endl,
             Str ''Shape: '', Str ''Circle'', Endl,
             Str ''  Area: '', Num (Finite False 5526748243772219 (- 46)), Endl,
             Str ''  Perimeter: '', Num (Finite False 8842797190035550 (- 48)), Endl,
             Str ''  Description: '', Str ''Circle with radius '', Num (double_of_nat 5), Endl,
             Endl,
             Str ''Shape: '', Str ''Rectangle'', Endl,
             Str ''  Area: '', Num (Finite False 6755399441055744 (- 48)), Endl,
             Str ''  Perimeter: '', Num (Finite False 5629499534213120 (- 48)), Endl,
             Str ''  Description: ''] @
            Rectangle_getDescription \<lparr>width = double_of_nat 4, height = double_of_nat 6\<rparr> @
            [Endl,
             Endl,
             Str ''Shape: '', Str ''Circle'', Endl,
             Str ''  Area: '', Num (Finite False 7958517471031995 (- 48)), Endl,
             Str ''  Perimeter: '', Num (Finite False 5305678314021330 (- 48)), Endl,
             Str ''  Description: '', Str ''Circle with radius '', Num (double_of_nat 3), Endl,
             Endl,
             Str ''Total area of all shapes: '', Num (Finite False 4602613735897077 (- 45)),
             Endl],
          cerr = []\<rparr>)"
proof (intro conjI)
  have pos: "\<not> fle (double_of_nat 5) (double_of_nat 0)" "\<not> fle (double_of_nat 3) (double_of_nat 0)"
    by (simp_all add: fle_zero_iff double_of_nat_literals)
  show shapes: "make_shapes (double_of_nat 5) (double_of_nat 4) (double_of_nat 6) (double_of_nat 3) =
     Inr [CircleShape \<lparr>radius = double_of_nat 5\<rparr>,
          RectangleShape \<lparr>width = double_of_nat 4, height = double_of_nat 6\<rparr>,
          CircleShape \<lparr>radius = double_of_nat 3\<rparr>]"
    using pos by (simp add: make_shapes_cases)
  show "main = (0, \<lparr>cout =
            [Str ''Shape Calculator v1.0'', Endl, Str ''====================='', Endl, Endl,
             Str ''Shape: '', Str ''Circle'', Endl,
             Str ''  Area: '', Num (Finite False 5526748243772219 (- 46)), Endl,
             Str ''  Perimeter: '', Num (Finite False 8842797190035550 (- 48)), Endl,
             Str ''  Description: '', Str ''Circle with radius '', Num (double_of_nat 5), Endl,
             Endl,
             Str ''Shape: '', Str ''Rectangle'', Endl,
             Str ''  Area: '', Num (Finite False 6755399441055744 (- 48)), Endl,
             Str ''  Perimeter: '', Num (Finite False 5629499534213120 (- 48)), Endl,
             Str ''  Description: ''] @
            Rectangle_getDescription \<lparr>width = double_of_nat 4, height = double_of_nat 6\<rparr> @
            [Endl,
             Endl,
             Str ''Shape: '', Str ''Circle'', Endl,
             Str ''  Area: '', Num (Finite False 7958517471031995 (- 48)), Endl,
             Str ''  Perimeter: '', Num (Finite False 5305678314021330 (- 48)), Endl,
             Str ''  Description: '', Str ''Circle with radius '', Num (double_of_nat 3), Endl,
             Endl,
             Str ''Total area of all shapes: '', Num (Finite False 4602613735897077 (- 45)),
             Endl],
          cerr = []\<rparr>)"
    unfolding main_def main_with_def shapes
    by (simp add: printShapeDetails_def demo_areas demo_perimeters demo_total
        Circle_getName_def Rectangle_getName_def Circle_getDescription_def)
qed (simp_all add: valof_literals demo_areas)

section \<open>Circle: the formulas\<close>

lemma powi_mult_lower:
  fixes x y :: real
  shows "2 powi a \<le> \<bar>x\<bar> \<Longrightarrow> 2 powi b \<le> \<bar>y\<bar> \<Longrightarrow> 2 powi (a + b) \<le> \<bar>x * y\<bar>"
  by (simp add: powi_split abs_mult mult_mono)

lemma powi_mult_upper:
  fixes x y :: real
  shows "\<bar>x\<bar> \<le> 2 powi a \<Longrightarrow> \<bar>y\<bar> \<le> 2 powi b \<Longrightarrow> \<bar>x * y\<bar> \<le> 2 powi (a + b)"
  by (simp add: powi_split abs_mult mult_mono)

lemma powi_lower_weaken:
  fixes x :: real
  shows "2 powi a \<le> x \<Longrightarrow> b \<le> a \<Longrightarrow> 2 powi b \<le> x"
  using power_int_increasing [of b a "2::real"] by simp

lemma powi_upper_weaken:
  fixes x :: real
  shows "x \<le> 2 powi a \<Longrightarrow> a \<le> b \<Longrightarrow> x \<le> 2 powi b"
  using power_int_increasing [of a b "2::real"] by simp

lemma positive_is_finite: "0 < valof r \<Longrightarrow> \<exists>m e. r = Finite False m e \<and> 0 < m"
proof (cases r)
  case (Finite s m e)
  assume a: "0 < valof r"
  have p: "(0::real) < 2 powi e" by simp
  show ?thesis
  proof (cases s)
    case True
    have "valof r = - (real m * 2 powi e)"
      using Finite True by simp
    moreover have "0 \<le> real m * 2 powi e" using p by simp
    ultimately show ?thesis using a by linarith
  next
    case False
    with a Finite show ?thesis by (cases "m = 0") simp_all
  qed
qed simp_all

lemma Circle_PI_bounds:
  "is_finite Circle_PI" "is_double Circle_PI" "2 powi 1 \<le> \<bar>valof Circle_PI\<bar>"
  "\<bar>valof Circle_PI\<bar> \<le> 2 powi 2" "0 < valof Circle_PI"
  by (simp_all add: Circle_PI_def)

lemma two_PI: "fmul (double_of_nat 2) Circle_PI = Finite False 7074237752028440 (- 50)"
  by (simp add: Circle_PI_def double_of_nat_literals fround_eval product_bits)

lemma area_error:
  assumes lo: "2 powi (- 500) \<le> valof r" and hi: "valof r \<le> 2 powi 500"
  shows "is_finite (fmul (fmul Circle_PI r) r)"
    and "\<bar>valof (fmul (fmul Circle_PI r) r) - valof Circle_PI * (valof r)\<^sup>2\<bar>
      \<le> 2 powi (- 51) * (valof Circle_PI * (valof r)\<^sup>2)"
proof -
  have R0: "0 < valof r"
    using lo zero_less_power_int [of "2::real" "- 500"] by linarith
  then have fin: "is_finite r"
    using positive_is_finite by fastforce
  have R: "2 powi (- 500) \<le> \<bar>valof r\<bar>" "\<bar>valof r\<bar> \<le> 2 powi 500"
    using lo hi R0 by simp_all
  note P = Circle_PI_bounds
  have PR: "2 powi (1 + - 500) \<le> \<bar>valof Circle_PI * valof r\<bar>"
    "\<bar>valof Circle_PI * valof r\<bar> \<le> 2 powi (2 + 500)"
    using powi_mult_lower [OF P(3) R(1)] powi_mult_upper [OF P(4) R(2)] .
  have PRR: "2 powi (1 + - 500 + - 500) \<le> \<bar>valof Circle_PI * valof r * valof r\<bar>"
    "\<bar>valof Circle_PI * valof r * valof r\<bar> \<le> 2 powi (2 + 500 + 500)"
    using powi_mult_lower [OF PR(1) R(1)] powi_mult_upper [OF PR(2) R(2)] .
  have b: "2 powi (- 1021) \<le> \<bar>valof Circle_PI * valof r\<bar>"
    "\<bar>valof Circle_PI * valof r\<bar> \<le> 2 powi 1021"
    "2 powi (- 1021) \<le> \<bar>valof Circle_PI * valof r * valof r\<bar>"
    "\<bar>valof Circle_PI * valof r * valof r\<bar> \<le> 2 powi 1021"
    using powi_lower_weaken [OF PR(1), of "- 1021"] powi_upper_weaken [OF PR(2), of 1021]
      powi_lower_weaken [OF PRR(1), of "- 1021"] powi_upper_weaken [OF PRR(2), of 1021]
    by simp_all
  have pos: "0 \<le> valof Circle_PI * valof r * valof r"
    using P(5) R0 by simp
  show "is_finite (fmul (fmul Circle_PI r) r)"
    using fmul_fmul_error(1) [OF P(1) fin fin b] .
  show "\<bar>valof (fmul (fmul Circle_PI r) r) - valof Circle_PI * (valof r)\<^sup>2\<bar>
      \<le> 2 powi (- 51) * (valof Circle_PI * (valof r)\<^sup>2)"
    using fmul_fmul_error(2) [OF P(1) fin fin b] pos
    by (simp add: power2_eq_square mult.assoc)
qed

lemma perimeter_error:
  assumes lo: "2 powi (- 500) \<le> valof r" and hi: "valof r \<le> 2 powi 500"
  shows "is_finite (fmul (fmul (double_of_nat 2) Circle_PI) r)"
    and "\<bar>valof (fmul (fmul (double_of_nat 2) Circle_PI) r) - 2 * valof Circle_PI * valof r\<bar>
      \<le> 2 powi (- 53) * (2 * valof Circle_PI * valof r)"
proof -
  define tp where "tp = Finite False 7074237752028440 (- 50)"
  have R0: "0 < valof r"
    using lo zero_less_power_int [of "2::real" "- 500"] by linarith
  then have fin: "is_finite r"
    using positive_is_finite by fastforce
  have R: "2 powi (- 500) \<le> \<bar>valof r\<bar>" "\<bar>valof r\<bar> \<le> 2 powi 500"
    using lo hi R0 by simp_all
  have tp: "is_finite tp" "valof tp = 2 * valof Circle_PI" "2 powi 2 \<le> \<bar>valof tp\<bar>"
    "\<bar>valof tp\<bar> \<le> 2 powi 3"
    by (simp_all add: tp_def Circle_PI_def)
  have TR: "2 powi (2 + - 500) \<le> \<bar>valof tp * valof r\<bar>"
    "\<bar>valof tp * valof r\<bar> \<le> 2 powi (3 + 500)"
    using powi_mult_lower [OF tp(3) R(1)] powi_mult_upper [OF tp(4) R(2)] .
  have "(2::real) powi (3 + 500) < 2 powi 1023"
    by (rule power_int_strict_increasing; simp)
  then have b: "2 powi (- 1022) \<le> \<bar>valof tp * valof r\<bar>" "\<bar>valof tp * valof r\<bar> < 2 powi 1023"
    using powi_lower_weaken [OF TR(1), of "- 1022"] TR(2) by simp_all
  have pos: "0 \<le> valof tp * valof r"
    using R0 tp(2) Circle_PI_bounds(5) by simp
  have eq: "fmul (double_of_nat 2) Circle_PI = tp"
    by (simp add: two_PI tp_def)
  show "is_finite (fmul (fmul (double_of_nat 2) Circle_PI) r)"
    unfolding eq using fmul_finite_error(1) [OF tp(1) fin b] .
  show "\<bar>valof (fmul (fmul (double_of_nat 2) Circle_PI) r) - 2 * valof Circle_PI * valof r\<bar>
      \<le> 2 powi (- 53) * (2 * valof Circle_PI * valof r)"
    unfolding eq using fmul_finite_error(2) [OF tp(1) fin b] pos
    by (simp only: tp(2) abs_of_nonneg)
qed

lemma diameter_exact:
  assumes d: "is_double r"
    and lo: "2 powi (- 500) \<le> valof r" and hi: "valof r \<le> 2 powi 500"
  shows "is_finite (fmul (double_of_nat 2) r)"
    and "valof (fmul (double_of_nat 2) r) = 2 * valof r"
proof -
  have R0: "0 < valof r"
    using lo zero_less_power_int [of "2::real" "- 500"] by linarith
  then obtain m e where r: "r = Finite False m e"
    using positive_is_finite by blast
  have n: "2 ^ 52 \<le> m" "m < 2 ^ 53" "e \<le> 448"
    using normal_range [of False m e] d lo hi unfolding r by simp_all
  have e: "- 1074 \<le> e" using d r by simp
  have eq: "fmul (double_of_nat 2) r = Finite False m (e + 1)"
    unfolding r double_of_nat_literals using n e by (intro fmul_two_exact) simp_all
  show "is_finite (fmul (double_of_nat 2) r)"
    by (simp add: eq)
  have "(2::real) powi (e + 1) = 2 powi e * 2"
    by (simp add: powi_split)
  then have h: "valof (Finite False m (e + 1)) = 2 * valof (Finite False m e)"
    by simp
  show "valof (fmul (double_of_nat 2) r) = 2 * valof r"
    unfolding eq unfolding r by (rule h)
qed

text \<open>
  C2. For every radius \<open>r > 0\<close> the Circle is constructed and, in double
  arithmetic, \<open>area()\<close> returns \<open>(PI * r) * r\<close>, \<open>perimeter()\<close> returns \<open>(2 * PI) * r\<close>
  and \<open>getDiameter()\<close> returns \<open>2 * r\<close>, each multiplication rounded. For a radius
  between \<open>2^-500\<close> and \<open>2^500\<close> the three results are finite, \<open>area()\<close> is within a
  relative error of \<open>2^-51\<close> of the exact \<open>PI * r^2\<close>, \<open>perimeter()\<close> within \<open>2^-53\<close> of
  the exact \<open>2 * PI * r\<close>, and \<open>getDiameter()\<close> is exactly \<open>2 * r\<close>.
\<close>

theorem Circle_formulas:
  "(fgt r (double_of_nat 0) \<longrightarrow>
      (\<exists>c. Circle_new r = Inr c \<and> getRadius c = r \<and>
         Circle_area c = fmul (fmul Circle_PI r) r \<and>
         Circle_perimeter c = fmul (fmul (double_of_nat 2) Circle_PI) r \<and>
         getDiameter c = fmul (double_of_nat 2) r)) \<and>
   (is_double r \<and> 2 powi (- 500) \<le> valof r \<and> valof r \<le> 2 powi 500 \<longrightarrow>
      fgt r (double_of_nat 0) \<and>
      is_finite (Circle_area \<lparr>radius = r\<rparr>) \<and>
      \<bar>valof (Circle_area \<lparr>radius = r\<rparr>) - valof Circle_PI * (valof r)\<^sup>2\<bar>
        \<le> 2 powi (- 51) * (valof Circle_PI * (valof r)\<^sup>2) \<and>
      is_finite (Circle_perimeter \<lparr>radius = r\<rparr>) \<and>
      \<bar>valof (Circle_perimeter \<lparr>radius = r\<rparr>) - 2 * valof Circle_PI * valof r\<bar>
        \<le> 2 powi (- 53) * (2 * valof Circle_PI * valof r) \<and>
      is_finite (getDiameter \<lparr>radius = r\<rparr>) \<and>
      valof (getDiameter \<lparr>radius = r\<rparr>) = 2 * valof r)"
proof (intro conjI impI)
  assume "fgt r (double_of_nat 0)"
  then have "Circle_new r = Inr \<lparr>radius = r\<rparr>"
    by (simp add: Circle_new_def validateRadius_def fgt_zero_not_fle)
  then show "\<exists>c. Circle_new r = Inr c \<and> getRadius c = r \<and>
         Circle_area c = fmul (fmul Circle_PI r) r \<and>
         Circle_perimeter c = fmul (fmul (double_of_nat 2) Circle_PI) r \<and>
         getDiameter c = fmul (double_of_nat 2) r"
    by (simp add: getRadius_def Circle_area_def Circle_perimeter_def getDiameter_def)
next
  assume a: "is_double r \<and> 2 powi (- 500) \<le> valof r \<and> valof r \<le> 2 powi 500"
  then have d: "is_double r" and lo: "2 powi (- 500) \<le> valof r" and hi: "valof r \<le> 2 powi 500"
    by simp_all
  have "0 < valof r"
    using lo zero_less_power_int [of "2::real" "- 500"] by linarith
  then obtain m e where "r = Finite False m e" "0 < m"
    using positive_is_finite by blast
  then show "fgt r (double_of_nat 0)"
    by (simp add: fgt_zero_iff)
  show "is_finite (Circle_area \<lparr>radius = r\<rparr>)"
    using area_error(1) [OF lo hi] by (simp add: Circle_area_def)
  show "\<bar>valof (Circle_area \<lparr>radius = r\<rparr>) - valof Circle_PI * (valof r)\<^sup>2\<bar>
        \<le> 2 powi (- 51) * (valof Circle_PI * (valof r)\<^sup>2)"
    using area_error(2) [OF lo hi] by (simp add: Circle_area_def)
  show "is_finite (Circle_perimeter \<lparr>radius = r\<rparr>)"
    using perimeter_error(1) [OF lo hi] by (simp add: Circle_perimeter_def)
  show "\<bar>valof (Circle_perimeter \<lparr>radius = r\<rparr>) - 2 * valof Circle_PI * valof r\<bar>
        \<le> 2 powi (- 53) * (2 * valof Circle_PI * valof r)"
    using perimeter_error(2) [OF lo hi] by (simp add: Circle_perimeter_def)
  show "is_finite (getDiameter \<lparr>radius = r\<rparr>)"
    using diameter_exact(1) [OF d lo hi] by (simp add: getDiameter_def)
  show "valof (getDiameter \<lparr>radius = r\<rparr>) = 2 * valof r"
    using diameter_exact(2) [OF d lo hi] by (simp add: getDiameter_def)
qed
theorem Circle_formulas_witness:
  "fgt (double_of_nat 5) (double_of_nat 0) \<and> is_double (double_of_nat 5) \<and>
   2 powi (- 500) \<le> valof (double_of_nat 5) \<and> valof (double_of_nat 5) \<le> 2 powi 500 \<and>
   Circle_new (double_of_nat 5) = Inr \<lparr>radius = double_of_nat 5\<rparr> \<and>
   \<bar>valof (Circle_area \<lparr>radius = double_of_nat 5\<rparr>) - valof Circle_PI * 5\<^sup>2\<bar>
     \<le> 2 powi (- 51) * (valof Circle_PI * 5\<^sup>2) \<and>
   \<bar>valof (Circle_perimeter \<lparr>radius = double_of_nat 5\<rparr>) - 2 * valof Circle_PI * 5\<bar>
     \<le> 2 powi (- 53) * (2 * valof Circle_PI * 5) \<and>
   valof (getDiameter \<lparr>radius = double_of_nat 5\<rparr>) = 2 * 5"
proof -
  have h: "fgt (double_of_nat 5) (double_of_nat 0)" "is_double (double_of_nat 5)"
    by (simp_all add: double_of_nat_literals fgt_zero_iff)
  have v: "valof (double_of_nat 5) = 5"
    by (simp add: valof_literals)
  have "(2::real) powi (- 500) \<le> 2 powi 0" "(2::real) powi 2 \<le> 2 powi 500"
    by (rule power_int_increasing; simp)+
  then have b: "2 powi (- 500) \<le> valof (double_of_nat 5)" "valof (double_of_nat 5) \<le> 2 powi 500"
    unfolding v by simp_all
  have c: "Circle_new (double_of_nat 5) = Inr \<lparr>radius = double_of_nat 5\<rparr>"
    using h(1) by (simp add: Circle_new_def validateRadius_def fgt_zero_not_fle)
  show ?thesis
    using Circle_formulas [of "double_of_nat 5"] h b c unfolding v by blast
qed

text \<open>
  The area is not \<open>PI * r^2\<close> itself, whether that is read as the double
  \<open>PI * (r * r)\<close> or as the exact product. At the radius 11, \<open>Circle(11.0).area()\<close> is the double
  \<open>0x4077C21F95A872A0\<close> (380.1327110843649), \<open>PI * (11.0 * 11.0)\<close> is the next double
  \<open>0x4077C21F95A872A1\<close> (380.132711084365), and the exact product lies between them.
\<close>

theorem Circle_area_11:
  "fgt (double_of_nat 11) (double_of_nat 0) \<and>
   valof (double_of_nat 11) = 11 \<and>
   Circle_new (double_of_nat 11) = Inr \<lparr>radius = double_of_nat 11\<rparr> \<and>
   Circle_area \<lparr>radius = double_of_nat 11\<rparr> = Finite False 6687365374964384 (- 44) \<and>
   fmul Circle_PI (fmul (double_of_nat 11) (double_of_nat 11)) =
     Finite False 6687365374964385 (- 44) \<and>
   Circle_area \<lparr>radius = double_of_nat 11\<rparr> \<noteq>
     fmul Circle_PI (fmul (double_of_nat 11) (double_of_nat 11)) \<and>
   valof (Circle_area \<lparr>radius = double_of_nat 11\<rparr>) < valof Circle_PI * (valof (double_of_nat 11))\<^sup>2 \<and>
   valof Circle_PI * (valof (double_of_nat 11))\<^sup>2 <
     valof (fmul Circle_PI (fmul (double_of_nat 11) (double_of_nat 11)))"
proof -
  have l: "double_of_nat 11 = Finite False 6192449487634432 (- 49)"
    by (simp add: double_of_nat_def fround_eval floorlog_2_eq [where k = 4])
  have a: "Circle_area \<lparr>radius = double_of_nat 11\<rparr> = Finite False 6687365374964384 (- 44)"
    by (simp add: l Circle_area_def Circle_PI_def fround_eval product_bits)
  have b: "fmul Circle_PI (fmul (double_of_nat 11) (double_of_nat 11)) =
     Finite False 6687365374964385 (- 44)"
    by (simp add: l Circle_PI_def fround_eval product_bits)
  have c: "Circle_new (double_of_nat 11) = Inr \<lparr>radius = double_of_nat 11\<rparr>"
    by (simp add: l Circle_new_def validateRadius_def fle_zero_iff)
  have g: "fgt (double_of_nat 11) (double_of_nat 0)"
    by (simp add: l fgt_zero_iff)
  have v: "valof (double_of_nat 11) = 11"
    by (simp add: l)
  have "valof (Finite False 6687365374964384 (- 44)) < valof Circle_PI * 11\<^sup>2"
    "valof Circle_PI * 11\<^sup>2 < valof (Finite False 6687365374964385 (- 44))"
    by (simp_all add: Circle_PI_def)
  then show ?thesis
    unfolding a b c v using g by simp
qed

section \<open>MathUtils and Circle\<close>

lemma range_abs:
  assumes lo: "2 powi a \<le> valof r"
  shows "0 < valof r" and "is_finite r" and "2 powi a \<le> \<bar>valof r\<bar>"
proof -
  show p: "0 < valof r"
    using lo zero_less_power_int [of "2::real" a] by linarith
  then show "is_finite r"
    using positive_is_finite by fastforce
  show "2 powi a \<le> \<bar>valof r\<bar>"
    using lo p by simp
qed

lemma square_form_error:
  assumes lo: "2 powi (- 500) \<le> valof r" and hi: "valof r \<le> 2 powi 500"
  shows "is_finite (fmul MathUtils_PI (square r))"
    and "\<bar>valof (fmul MathUtils_PI (square r)) - valof MathUtils_PI * (valof r)\<^sup>2\<bar>
      \<le> 2 powi (- 51) * (valof MathUtils_PI * (valof r)\<^sup>2)"
proof -
  note r = range_abs [OF lo]
  have hi': "\<bar>valof r\<bar> \<le> 2 powi 500"
    using hi r(1) by simp
  have P: "is_finite MathUtils_PI" "2 powi 1 \<le> \<bar>valof MathUtils_PI\<bar>"
    "\<bar>valof MathUtils_PI\<bar> \<le> 2 powi 2" "0 < valof MathUtils_PI"
    by (simp_all add: MathUtils_PI_def)
  have RR: "2 powi (- 500 + - 500) \<le> \<bar>valof r * valof r\<bar>"
    "\<bar>valof r * valof r\<bar> \<le> 2 powi (500 + 500)"
    using powi_mult_lower [OF r(3) r(3)] powi_mult_upper [OF hi' hi'] .
  have RRP: "2 powi (- 500 + - 500 + 1) \<le> \<bar>valof r * valof r * valof MathUtils_PI\<bar>"
    "\<bar>valof r * valof r * valof MathUtils_PI\<bar> \<le> 2 powi (500 + 500 + 2)"
    using powi_mult_lower [OF RR(1) P(2)] powi_mult_upper [OF RR(2) P(3)] .
  have b: "2 powi (- 1021) \<le> \<bar>valof r * valof r\<bar>"
    "\<bar>valof r * valof r\<bar> \<le> 2 powi 1021"
    "2 powi (- 1021) \<le> \<bar>valof r * valof r * valof MathUtils_PI\<bar>"
    "\<bar>valof r * valof r * valof MathUtils_PI\<bar> \<le> 2 powi 1021"
    using powi_lower_weaken [OF RR(1), of "- 1021"] powi_upper_weaken [OF RR(2), of 1021]
      powi_lower_weaken [OF RRP(1), of "- 1021"] powi_upper_weaken [OF RRP(2), of 1021]
    by simp_all
  have pos: "0 \<le> valof r * valof r * valof MathUtils_PI"
    using P(4) r(1) by simp
  have eq: "fmul MathUtils_PI (square r) = fmul (fmul r r) MathUtils_PI"
    by (simp add: square_def fmul_commute)
  show "is_finite (fmul MathUtils_PI (square r))"
    unfolding eq using fmul_fmul_error(1) [OF r(2) r(2) P(1) b] .
  show "\<bar>valof (fmul MathUtils_PI (square r)) - valof MathUtils_PI * (valof r)\<^sup>2\<bar>
      \<le> 2 powi (- 51) * (valof MathUtils_PI * (valof r)\<^sup>2)"
    unfolding eq using fmul_fmul_error(2) [OF r(2) r(2) P(1) b] pos
    by (simp add: power2_eq_square mult.commute mult.left_commute)
qed

text \<open>
  C10. The private constant \<open>Circle::PI\<close> is the same double as
  \<open>MathUtils::PI\<close>. For every radius \<open>r > 0\<close> the perimeter of the Circle is
  \<open>(2 * MathUtils::PI) * r\<close> and its area is \<open>(MathUtils::PI * r) * r\<close>; the area and
  \<open>MathUtils::PI * MathUtils::square(r)\<close> agree up to rounding: for a radius between
  \<open>2^-500\<close> and \<open>2^500\<close> they differ by at most \<open>2^-50 * PI * r^2\<close>.
\<close>

theorem Circle_PI_MathUtils_PI:
  "Circle_PI = MathUtils_PI \<and>
   (fgt r (double_of_nat 0) \<longrightarrow>
      (\<exists>c. Circle_new r = Inr c \<and>
         Circle_area c = fmul (fmul MathUtils_PI r) r \<and>
         Circle_perimeter c = fmul (fmul (double_of_nat 2) MathUtils_PI) r)) \<and>
   (2 powi (- 500) \<le> valof r \<and> valof r \<le> 2 powi 500 \<longrightarrow>
      is_finite (Circle_area \<lparr>radius = r\<rparr>) \<and>
      is_finite (fmul MathUtils_PI (square r)) \<and>
      \<bar>valof (Circle_area \<lparr>radius = r\<rparr>) - valof (fmul MathUtils_PI (square r))\<bar>
        \<le> 2 powi (- 50) * (valof MathUtils_PI * (valof r)\<^sup>2))"
proof (intro conjI impI)
  show same: "Circle_PI = MathUtils_PI"
    by (simp add: Circle_PI_def MathUtils_PI_def)
  {
    assume "fgt r (double_of_nat 0)"
    then have "Circle_new r = Inr \<lparr>radius = r\<rparr>"
      by (simp add: Circle_new_def validateRadius_def fgt_zero_not_fle)
    then show "\<exists>c. Circle_new r = Inr c \<and>
         Circle_area c = fmul (fmul MathUtils_PI r) r \<and>
         Circle_perimeter c = fmul (fmul (double_of_nat 2) MathUtils_PI) r"
      by (simp add: Circle_area_def Circle_perimeter_def same)
  }
  assume "2 powi (- 500) \<le> valof r \<and> valof r \<le> 2 powi 500"
  then have lo: "2 powi (- 500) \<le> valof r" and hi: "valof r \<le> 2 powi 500"
    by simp_all
  define x where "x = valof MathUtils_PI * (valof r)\<^sup>2"
  define a where "a = valof (Circle_area \<lparr>radius = r\<rparr>)"
  define b where "b = valof (fmul MathUtils_PI (square r))"
  show "is_finite (Circle_area \<lparr>radius = r\<rparr>)"
    using area_error(1) [OF lo hi] by (simp add: Circle_area_def)
  show "is_finite (fmul MathUtils_PI (square r))"
    using square_form_error(1) [OF lo hi] .
  have "\<bar>a - x\<bar> \<le> 2 powi (- 51) * x"
    using area_error(2) [OF lo hi] by (simp add: a_def x_def Circle_area_def same)
  moreover have "\<bar>b - x\<bar> \<le> 2 powi (- 51) * x"
    using square_form_error(2) [OF lo hi] by (simp add: b_def x_def)
  moreover have "2 * (2 powi (- 51) * x) = 2 powi (- 50) * x"
    by simp
  ultimately have "\<bar>a - b\<bar> \<le> 2 powi (- 50) * x"
    by linarith
  then show "\<bar>valof (Circle_area \<lparr>radius = r\<rparr>) - valof (fmul MathUtils_PI (square r))\<bar>
        \<le> 2 powi (- 50) * (valof MathUtils_PI * (valof r)\<^sup>2)"
    by (simp only: a_def b_def x_def)
qed

theorem Circle_PI_MathUtils_PI_witness:
  "fgt (double_of_nat 3) (double_of_nat 0) \<and>
   2 powi (- 500) \<le> valof (double_of_nat 3) \<and> valof (double_of_nat 3) \<le> 2 powi 500 \<and>
   Circle_new (double_of_nat 3) = Inr \<lparr>radius = double_of_nat 3\<rparr> \<and>
   Circle_area \<lparr>radius = double_of_nat 3\<rparr> =
     fmul (fmul MathUtils_PI (double_of_nat 3)) (double_of_nat 3) \<and>
   Circle_perimeter \<lparr>radius = double_of_nat 3\<rparr> =
     fmul (fmul (double_of_nat 2) MathUtils_PI) (double_of_nat 3) \<and>
   \<bar>valof (Circle_area \<lparr>radius = double_of_nat 3\<rparr>) -
      valof (fmul MathUtils_PI (square (double_of_nat 3)))\<bar>
     \<le> 2 powi (- 50) * (valof MathUtils_PI * 3\<^sup>2)"
proof -
  have g: "fgt (double_of_nat 3) (double_of_nat 0)"
    by (simp add: double_of_nat_literals fgt_zero_iff)
  have v: "valof (double_of_nat 3) = 3"
    by (simp add: valof_literals)
  have "(2::real) powi (- 500) \<le> 2 powi 0" "(2::real) powi 2 \<le> 2 powi 500"
    by (rule power_int_increasing; simp)+
  then have b: "2 powi (- 500) \<le> valof (double_of_nat 3)" "valof (double_of_nat 3) \<le> 2 powi 500"
    unfolding v by simp_all
  have c: "Circle_new (double_of_nat 3) = Inr \<lparr>radius = double_of_nat 3\<rparr>"
    using g by (simp add: Circle_new_def validateRadius_def fgt_zero_not_fle)
  show ?thesis
    using Circle_PI_MathUtils_PI [of "double_of_nat 3"] g b c unfolding v by auto
qed

text \<open>
  The area and \<open>MathUtils::PI * MathUtils::square(r)\<close> are not always the same double. At
  the radius 17, \<open>Circle(17.0).area()\<close> is
  \<open>0x408C5F5CBA20F6E9\<close> (907.9202768874503) and
  \<open>MathUtils::PI * MathUtils::square(17.0)\<close> is \<open>0x408C5F5CBA20F6E8\<close> (907.9202768874502).
\<close>

theorem Circle_area_17:
  "fgt (double_of_nat 17) (double_of_nat 0) \<and>
   valof (double_of_nat 17) = 17 \<and>
   Circle_new (double_of_nat 17) = Inr \<lparr>radius = double_of_nat 17\<rparr> \<and>
   Circle_area \<lparr>radius = double_of_nat 17\<rparr> = Finite False 7986151212250857 (- 43) \<and>
   fmul MathUtils_PI (square (double_of_nat 17)) = Finite False 7986151212250856 (- 43) \<and>
   Circle_area \<lparr>radius = double_of_nat 17\<rparr> \<noteq> fmul MathUtils_PI (square (double_of_nat 17))"
proof -
  have l: "double_of_nat 17 = Finite False 4785074604081152 (- 48)"
    by (simp add: double_of_nat_def fround_eval floorlog_2_eq [where k = 5])
  have a: "Circle_area \<lparr>radius = double_of_nat 17\<rparr> = Finite False 7986151212250857 (- 43)"
    by (simp add: l Circle_area_def Circle_PI_def fround_eval product_bits)
  have b: "fmul MathUtils_PI (square (double_of_nat 17)) = Finite False 7986151212250856 (- 43)"
    by (simp add: l MathUtils_PI_def square_def fround_eval product_bits)
  have c: "Circle_new (double_of_nat 17) = Inr \<lparr>radius = double_of_nat 17\<rparr>"
    by (simp add: l Circle_new_def validateRadius_def fle_zero_iff)
  have g: "fgt (double_of_nat 17) (double_of_nat 0)"
    by (simp add: l fgt_zero_iff)
  have v: "valof (double_of_nat 17) = 17"
    by (simp add: l)
  show ?thesis
    unfolding a b c v using g by simp
qed
lemma square_cube_error:
  assumes fin: "is_finite x"
    and lo: "2 powi (- 340) \<le> \<bar>valof x\<bar>" and hi: "\<bar>valof x\<bar> \<le> 2 powi 340"
  shows "is_finite (square x)"
    and "\<bar>valof (square x) - (valof x)\<^sup>2\<bar> \<le> 2 powi (- 53) * (valof x)\<^sup>2"
    and "is_finite (cube x)"
    and "\<bar>valof (cube x) - (valof x) ^ 3\<bar> \<le> 2 powi (- 51) * \<bar>valof x\<bar> ^ 3"
proof -
  have XX: "2 powi (- 340 + - 340) \<le> \<bar>valof x * valof x\<bar>"
    "\<bar>valof x * valof x\<bar> \<le> 2 powi (340 + 340)"
    using powi_mult_lower [OF lo lo] powi_mult_upper [OF hi hi] .
  have XXX: "2 powi (- 340 + - 340 + - 340) \<le> \<bar>valof x * valof x * valof x\<bar>"
    "\<bar>valof x * valof x * valof x\<bar> \<le> 2 powi (340 + 340 + 340)"
    using powi_mult_lower [OF XX(1) lo] powi_mult_upper [OF XX(2) hi] .
  have b: "2 powi (- 1021) \<le> \<bar>valof x * valof x\<bar>"
    "\<bar>valof x * valof x\<bar> \<le> 2 powi 1021"
    "2 powi (- 1021) \<le> \<bar>valof x * valof x * valof x\<bar>"
    "\<bar>valof x * valof x * valof x\<bar> \<le> 2 powi 1021"
    using powi_lower_weaken [OF XX(1), of "- 1021"] powi_upper_weaken [OF XX(2), of 1021]
      powi_lower_weaken [OF XXX(1), of "- 1021"] powi_upper_weaken [OF XXX(2), of 1021]
    by simp_all
  have "(2::real) powi (- 1022) \<le> 2 powi (- 1021)" "(2::real) powi 1021 < 2 powi 1023"
    by (rule power_int_increasing power_int_strict_increasing; simp)+
  then have b': "2 powi (- 1022) \<le> \<bar>valof x * valof x\<bar>" "\<bar>valof x * valof x\<bar> < 2 powi 1023"
    using b(1,2) by linarith+
  show "is_finite (square x)"
    unfolding square_def using fmul_finite_error(1) [OF fin fin b'] .
  show "\<bar>valof (square x) - (valof x)\<^sup>2\<bar> \<le> 2 powi (- 53) * (valof x)\<^sup>2"
    unfolding square_def using fmul_finite_error(2) [OF fin fin b']
    by (simp add: power2_eq_square)
  show "is_finite (cube x)"
    unfolding cube_def using fmul_fmul_error(1) [OF fin fin fin b] .
  show "\<bar>valof (cube x) - (valof x) ^ 3\<bar> \<le> 2 powi (- 51) * \<bar>valof x\<bar> ^ 3"
    unfolding cube_def using fmul_fmul_error(2) [OF fin fin fin b]
    by (simp add: power3_eq_cube abs_mult)
qed

text \<open>
  C9. For every double \<open>x\<close>, \<open>square(x)\<close> returns \<open>x * x\<close> and \<open>cube(x)\<close> returns
  \<open>(x * x) * x\<close> in double arithmetic; they depend on \<open>x\<close> alone. The constants \<open>PI\<close> and
  \<open>E\<close> are the doubles nearest to their decimal literals (within \<open>2^-52\<close>, half the
  spacing of the doubles between 2 and 4). For a finite \<open>x\<close> with
  \<open>2^-340 \<le> |x| \<le> 2^340\<close> the results are finite, \<open>square(x)\<close> within a relative error of
  \<open>2^-53\<close> of the exact \<open>x^2\<close> and \<open>cube(x)\<close> within \<open>2^-51\<close> of the exact \<open>x^3\<close>.
\<close>

theorem MathUtils_helpers:
  "square x = fmul x x \<and> cube x = fmul (fmul x x) x \<and>
   is_double MathUtils_PI \<and> is_double MathUtils_E \<and>
   \<bar>valof MathUtils_PI - 314159265358979323846 / 10 ^ 20\<bar> \<le> 2 powi (- 52) \<and>
   \<bar>valof MathUtils_E - 271828182845904523536 / 10 ^ 20\<bar> \<le> 2 powi (- 52) \<and>
   (is_finite x \<and> 2 powi (- 340) \<le> \<bar>valof x\<bar> \<and> \<bar>valof x\<bar> \<le> 2 powi 340 \<longrightarrow>
      is_finite (square x) \<and>
      \<bar>valof (square x) - (valof x)\<^sup>2\<bar> \<le> 2 powi (- 53) * (valof x)\<^sup>2 \<and>
      is_finite (cube x) \<and>
      \<bar>valof (cube x) - (valof x) ^ 3\<bar> \<le> 2 powi (- 51) * \<bar>valof x\<bar> ^ 3)"
proof (intro conjI impI)
  show "square x = fmul x x" by (simp add: square_def)
  show "cube x = fmul (fmul x x) x" by (simp add: cube_def)
  show "is_double MathUtils_PI" by (simp add: MathUtils_PI_def)
  show "is_double MathUtils_E" by (simp add: MathUtils_E_def)
  show "\<bar>valof MathUtils_PI - 314159265358979323846 / 10 ^ 20\<bar> \<le> 2 powi (- 52)"
    by (simp add: MathUtils_PI_def)
  show "\<bar>valof MathUtils_E - 271828182845904523536 / 10 ^ 20\<bar> \<le> 2 powi (- 52)"
    by (simp add: MathUtils_E_def)
next
  assume a: "is_finite x \<and> 2 powi (- 340) \<le> \<bar>valof x\<bar> \<and> \<bar>valof x\<bar> \<le> 2 powi 340"
  then have h: "is_finite x" "2 powi (- 340) \<le> \<bar>valof x\<bar>" "\<bar>valof x\<bar> \<le> 2 powi 340"
    by simp_all
  show "is_finite (square x)"
    and "\<bar>valof (square x) - (valof x)\<^sup>2\<bar> \<le> 2 powi (- 53) * (valof x)\<^sup>2"
    and "is_finite (cube x)"
    and "\<bar>valof (cube x) - (valof x) ^ 3\<bar> \<le> 2 powi (- 51) * \<bar>valof x\<bar> ^ 3"
    using square_cube_error [OF h] .
qed

text \<open>The witness: \<open>x = -3.0\<close>.\<close>

theorem MathUtils_helpers_witness:
  "is_finite (Finite True 6755399441055744 (- 51)) \<and>
   valof (Finite True 6755399441055744 (- 51)) = - 3 \<and>
   2 powi (- 340) \<le> \<bar>valof (Finite True 6755399441055744 (- 51))\<bar> \<and>
   \<bar>valof (Finite True 6755399441055744 (- 51))\<bar> \<le> 2 powi 340 \<and>
   \<bar>valof (square (Finite True 6755399441055744 (- 51))) - (- 3)\<^sup>2\<bar>
     \<le> 2 powi (- 53) * (- 3)\<^sup>2 \<and>
   \<bar>valof (cube (Finite True 6755399441055744 (- 51))) - (- 3) ^ 3\<bar>
     \<le> 2 powi (- 51) * \<bar>- 3\<bar> ^ 3"
proof -
  have v: "valof (Finite True 6755399441055744 (- 51)) = - 3"
    by simp
  have "(2::real) powi (- 340) \<le> 2 powi 0" "(2::real) powi 2 \<le> 2 powi 340"
    by (rule power_int_increasing; simp)+
  then have b: "2 powi (- 340) \<le> \<bar>valof (Finite True 6755399441055744 (- 51))\<bar>"
    "\<bar>valof (Finite True 6755399441055744 (- 51))\<bar> \<le> 2 powi 340"
    unfolding v by simp_all
  have f: "is_finite (Finite True 6755399441055744 (- 51))"
    by simp
  show ?thesis
    using MathUtils_helpers [of "Finite True 6755399441055744 (- 51)"] f b v
    unfolding v by auto
qed

end
